theory Spec2Isabelle
  imports
    Main
    "HOL-Library.Word"
    "HOL-Library.Monad_Syntax"
    "HOL-Library.Signed_Division"
    "HOL-Library.AList"
    "HOL-Library.Char_ord"
    "HOL-Library.List_Lexorder"
begin

unbundle bit_operations_syntax

section \<open>Common types (include/aimlab-vr-datastreamer/Types.h)\<close>

type_synonym u8 = "8 word"
type_synonym u16 = "16 word"
type_synonym u32 = "32 word"
type_synonym u64 = "64 word"

text \<open>
  A C++ \<^verbatim>\<open>float\<close> is carried as its 32-bit IEEE-754 pattern: the codec only ever moves
  it with \<^verbatim>\<open>memcpy\<close> to and from a \<^verbatim>\<open>uint32_t\<close>, so the pattern is all it sees.
\<close>

type_synonym float32 = "32 word"

record Vector3 =
  v3_x :: float32
  v3_y :: float32
  v3_z :: float32

record Quaternion =
  q_w :: float32
  q_x :: float32
  q_y :: float32
  q_z :: float32

record Pose =
  position :: Vector3
  rotation :: Quaternion
  timestamp :: u64

text \<open>
  \<^verbatim>\<open>enum class DeviceType\<close> and \<^verbatim>\<open>enum class TrackingState\<close> have the underlying
  type \<^verbatim>\<open>int\<close>, and the codec passes them through \<^verbatim>\<open>static_cast<uint8_t>\<close> and back.
  Both casts are defined for every value of the underlying type, so the two enums are
  modelled as that 32-bit value, with the enumerators as named constants.
\<close>

type_synonym DeviceType = "32 word"

definition DeviceType_Unknown :: DeviceType where "DeviceType_Unknown = 0"
definition HeadMountedDisplay :: DeviceType where "HeadMountedDisplay = 1"
definition LeftController :: DeviceType where "LeftController = 2"
definition RightController :: DeviceType where "RightController = 3"
definition Tracker :: DeviceType where "Tracker = 4"
definition BaseStation :: DeviceType where "BaseStation = 5"

type_synonym TrackingState = "32 word"

definition NotTracked :: TrackingState where "NotTracked = 0"
definition Tracked :: TrackingState where "Tracked = 1"
definition TrackingLost :: TrackingState where "TrackingLost = 2"

record ButtonState =
  trigger :: bool
  grip :: bool
  menu :: bool
  touchpad :: bool
  thumbstick :: bool
  triggerValue :: float32
  gripValue :: float32
  touchpadAxis :: Vector3
  thumbstickAxis :: Vector3

record DeviceData =
  deviceId :: u32
  deviceType :: DeviceType
  trackingState :: TrackingState
  pose :: Pose
  buttons :: ButtonState
  isConnected :: bool
  deviceName :: string

section \<open>Data packet (src/DataPacket.cpp)\<close>

datatype PacketFormat = Binary | JSON | MessagePack

record DataPacket =
  m_devices :: "DeviceData list"
  m_timestamp :: u64
  m_sequenceNumber :: u32
  m_format :: PacketFormat

subsection \<open>Binary serialisation\<close>

definition writeUint32 :: "u32 \<Rightarrow> u8 list" where
  "writeUint32 val =
     [ucast (drop_bit 24 val AND 0xFF), ucast (drop_bit 16 val AND 0xFF),
      ucast (drop_bit 8 val AND 0xFF), ucast (val AND 0xFF)]"

definition writeUint16 :: "u16 \<Rightarrow> u8 list" where
  "writeUint16 val = [ucast (drop_bit 8 val AND 0xFF), ucast (val AND 0xFF)]"

text \<open>The loop \<^verbatim>\<open>for (int i = 7; i >= 0; --i)\<close> pushes the bytes from the top one down.\<close>

definition writeUint64 :: "u64 \<Rightarrow> u8 list" where
  "writeUint64 val = map (\<lambda>i. ucast (drop_bit (i * 8) val AND 0xFF)) (rev [0..<8])"

definition writeFloat :: "float32 \<Rightarrow> u8 list" where
  "writeFloat val = writeUint32 val"

definition writeBool :: "bool \<Rightarrow> u8 list" where
  "writeBool b = [if b then 1 else 0]"

definition writeDevice :: "DeviceData \<Rightarrow> u8 list" where
  "writeDevice device =
     writeUint32 (deviceId device) @
     [ucast (deviceType device)] @
     [ucast (trackingState device)] @
     writeBool (isConnected device) @
     writeFloat (v3_x (position (pose device))) @
     writeFloat (v3_y (position (pose device))) @
     writeFloat (v3_z (position (pose device))) @
     writeFloat (q_w (rotation (pose device))) @
     writeFloat (q_x (rotation (pose device))) @
     writeFloat (q_y (rotation (pose device))) @
     writeFloat (q_z (rotation (pose device))) @
     writeUint64 (timestamp (pose device)) @
     writeBool (trigger (buttons device)) @
     writeBool (grip (buttons device)) @
     writeFloat (triggerValue (buttons device)) @
     writeFloat (gripValue (buttons device))"

definition magic :: u32 where
  "magic = 0x41494D4C"

text \<open>
  \<^verbatim>\<open>deviceCount\<close> is \<^verbatim>\<open>static_cast<uint32_t>(m_devices.size())\<close>: the length modulo
  \<open>2 ^ 32\<close>. The \<^verbatim>\<open>reserve\<close> call only sizes the buffer and is left out.
\<close>

definition writeHeader :: "DataPacket \<Rightarrow> u8 list" where
  "writeHeader p =
     writeUint32 magic @ writeUint16 1 @ writeUint32 (m_sequenceNumber p) @
     writeUint64 (m_timestamp p) @ writeUint32 (of_nat (length (m_devices p)))"

definition serializeBinary :: "DataPacket \<Rightarrow> u8 list" where
  "serializeBinary p = writeHeader p @ concat (map writeDevice (m_devices p))"

subsection \<open>JSON serialisation\<close>

text \<open>Decimal output of an integer, as \<^verbatim>\<open>operator<<\<close> and \<^verbatim>\<open>std::to_string\<close> print it.\<close>

fun digits :: "nat \<Rightarrow> string" where
  "digits n = (if n < 10 then [char_of (48 + n)] else digits (n div 10) @ [char_of (48 + n mod 10)])"

declare digits.simps [simp del]

definition to_string :: "int \<Rightarrow> string" where
  "to_string i = (if i < 0 then CHR ''-'' # digits (nat (- i)) else digits (nat i))"

fun join_comma :: "string list \<Rightarrow> string" where
  "join_comma [] = []"
| "join_comma [s] = s"
| "join_comma (s # t # ss) = s @ '','' @ join_comma (t # ss)"

text \<open>
  How \<^verbatim>\<open>operator<<\<close> prints a \<^verbatim>\<open>float\<close> belongs to the stream library; the printer
  is a parameter \<open>fmt\<close> of the model.
\<close>

definition deviceJSON :: "(float32 \<Rightarrow> string) \<Rightarrow> DeviceData \<Rightarrow> string" where
  \<open>deviceJSON fmt dev =
     ''{"id":'' @ to_string (uint (deviceId dev)) @
     '',"type":'' @ to_string (sint (deviceType dev)) @
     '',"pos":['' @ fmt (v3_x (position (pose dev))) @ '','' @
     fmt (v3_y (position (pose dev))) @ '','' @ fmt (v3_z (position (pose dev))) @ '']'' @
     '',"rot":['' @ fmt (q_w (rotation (pose dev))) @ '','' @
     fmt (q_x (rotation (pose dev))) @ '','' @ fmt (q_y (rotation (pose dev))) @ '','' @
     fmt (q_z (rotation (pose dev))) @ '']}''\<close>

definition serializeJSON :: "(float32 \<Rightarrow> string) \<Rightarrow> DataPacket \<Rightarrow> u8 list" where
  \<open>serializeJSON fmt p =
     map of_char
       (''{"seq":'' @ to_string (uint (m_sequenceNumber p)) @
        '',"ts":'' @ to_string (uint (m_timestamp p)) @
        '',"devices":['' @ join_comma (map (deviceJSON fmt) (m_devices p)) @ '']}'')\<close>

definition serialize :: "(float32 \<Rightarrow> string) \<Rightarrow> DataPacket \<Rightarrow> u8 list" where
  "serialize fmt p =
     (case m_format p of
        Binary \<Rightarrow> serializeBinary p
      | JSON \<Rightarrow> serializeJSON fmt p
      | _ \<Rightarrow> serializeBinary p)"

subsection \<open>Binary deserialisation\<close>

text \<open>
  \<^verbatim>\<open>data[i]\<close> on a \<^verbatim>\<open>std::vector\<close> is unchecked: an index at or past \<^verbatim>\<open>data.size()\<close>
  is a read outside the buffer. The model makes that outcome explicit as \<open>None\<close>, and
  every reader threads it.
\<close>

definition byte_at :: "u8 list \<Rightarrow> nat \<Rightarrow> u8 option" where
  "byte_at data i = (if i < length data then Some (data ! i) else None)"

definition readUint32 :: "u8 list \<Rightarrow> nat \<Rightarrow> (u32 \<times> nat) option" where
  "readUint32 data offset = do {
     b0 \<leftarrow> byte_at data offset;
     b1 \<leftarrow> byte_at data (offset + 1);
     b2 \<leftarrow> byte_at data (offset + 2);
     b3 \<leftarrow> byte_at data (offset + 3);
     Some (push_bit 24 (ucast b0) OR push_bit 16 (ucast b1) OR push_bit 8 (ucast b2) OR ucast b3,
           offset + 4)
   }"

fun readUint64_loop :: "u8 list \<Rightarrow> nat \<Rightarrow> nat \<Rightarrow> u64 \<Rightarrow> (u64 \<times> nat) option" where
  "readUint64_loop data 0 offset val = Some (val, offset)"
| "readUint64_loop data (Suc n) offset val = do {
     b \<leftarrow> byte_at data offset;
     readUint64_loop data n (offset + 1) (push_bit 8 val OR ucast b)
   }"

definition readUint64 :: "u8 list \<Rightarrow> nat \<Rightarrow> (u64 \<times> nat) option" where
  "readUint64 data offset = readUint64_loop data 8 offset 0"

definition readFloat :: "u8 list \<Rightarrow> nat \<Rightarrow> (float32 \<times> nat) option" where
  "readFloat data offset = readUint32 data offset"

definition readByte :: "u8 list \<Rightarrow> nat \<Rightarrow> (u8 \<times> nat) option" where
  "readByte data offset = do { b \<leftarrow> byte_at data offset; Some (b, offset + 1) }"

text \<open>
  One pass of the loop body. \<^verbatim>\<open>DeviceData device;\<close> is default-initialised, and the
  fields the wire format does not carry keep what that left in them; \<open>blank\<close> stands for
  that starting record.
\<close>

definition readDevice :: "DeviceData \<Rightarrow> u8 list \<Rightarrow> nat \<Rightarrow> (DeviceData \<times> nat) option" where
  "readDevice blank data offset = do {
     (did, o1) \<leftarrow> readUint32 data offset;
     (ty, o2) \<leftarrow> readByte data o1;
     (st, o3) \<leftarrow> readByte data o2;
     (con, o4) \<leftarrow> readByte data o3;
     (px, o5) \<leftarrow> readFloat data o4;
     (py, o6) \<leftarrow> readFloat data o5;
     (pz, o7) \<leftarrow> readFloat data o6;
     (rw, o8) \<leftarrow> readFloat data o7;
     (rx, o9) \<leftarrow> readFloat data o8;
     (ry, o10) \<leftarrow> readFloat data o9;
     (rz, o11) \<leftarrow> readFloat data o10;
     (ts, o12) \<leftarrow> readUint64 data o11;
     (tr, o13) \<leftarrow> readByte data o12;
     (gr, o14) \<leftarrow> readByte data o13;
     (tv, o15) \<leftarrow> readFloat data o14;
     (gv, o16) \<leftarrow> readFloat data o15;
     Some (blank\<lparr>
             deviceId := did,
             deviceType := ucast ty,
             trackingState := ucast st,
             isConnected := (con \<noteq> 0),
             pose := \<lparr>position = \<lparr>v3_x = px, v3_y = py, v3_z = pz\<rparr>,
                      rotation = \<lparr>q_w = rw, q_x = rx, q_y = ry, q_z = rz\<rparr>,
                      timestamp = ts\<rparr>,
             buttons := (buttons blank)\<lparr>trigger := (tr \<noteq> 0), grip := (gr \<noteq> 0),
                                        triggerValue := tv, gripValue := gv\<rparr>\<rparr>,
           o16)
   }"

text \<open>
  \<^verbatim>\<open>for (uint32_t i = 0; i < deviceCount && offset < data.size(); ++i)\<close>: the first
  argument counts the passes still allowed by \<^verbatim>\<open>deviceCount\<close>.
\<close>

fun readDevices :: "DeviceData \<Rightarrow> u8 list \<Rightarrow> nat \<Rightarrow> nat \<Rightarrow> DeviceData list option" where
  "readDevices blank data 0 offset = Some []"
| "readDevices blank data (Suc n) offset =
     (if offset < length data then do {
        (device, offset') \<leftarrow> readDevice blank data offset;
        rest \<leftarrow> readDevices blank data n offset';
        Some (device # rest)
      } else Some [])"

text \<open>
  The result is \<open>None\<close> when the call reads outside the buffer, and otherwise the returned
  flag with the packet as the call leaves it. \<^verbatim>\<open>m_devices.reserve(deviceCount)\<close> only asks
  for memory; a failure to get it (\<^verbatim>\<open>std::bad_alloc\<close> for a large announced count, thrown
  after the sequence number and the timestamp are overwritten and the devices cleared) is
  not part of the model.
\<close>

definition deserializeBinary ::
    "DeviceData \<Rightarrow> u8 list \<Rightarrow> DataPacket \<Rightarrow> (bool \<times> DataPacket) option" where
  "deserializeBinary blank data p =
     (if length data < 22 then Some (False, p)
      else do {
        (mg, o1) \<leftarrow> readUint32 data 0;
        if mg \<noteq> magic then Some (False, p)
        else do {
          (sq, o3) \<leftarrow> readUint32 data (o1 + 2);
          (ts, o4) \<leftarrow> readUint64 data o3;
          (deviceCount, o5) \<leftarrow> readUint32 data o4;
          devs \<leftarrow> readDevices blank data (unat deviceCount) o5;
          Some (True, p\<lparr>m_sequenceNumber := sq, m_timestamp := ts, m_devices := devs\<rparr>)
        }
      })"

definition deserializeJSON :: "u8 list \<Rightarrow> DataPacket \<Rightarrow> bool \<times> DataPacket" where
  "deserializeJSON data p = (False, p\<lparr>m_devices := []\<rparr>)"

definition deserialize ::
    "DeviceData \<Rightarrow> u8 list \<Rightarrow> DataPacket \<Rightarrow> (bool \<times> DataPacket) option" where
  "deserialize blank data p =
     (if data = [] then Some (False, p)
      else case m_format p of
        Binary \<Rightarrow> deserializeBinary blank data p
      | JSON \<Rightarrow> Some (deserializeJSON data p)
      | _ \<Rightarrow> deserializeBinary blank data p)"

subsection \<open>Vocabulary for the codec properties\<close>

text \<open>
  What \<open>readDevice\<close> builds from the bytes \<open>writeDevice\<close> wrote for \<open>d\<close>: the wire fields
  of \<open>d\<close> laid over the starting record, the two enum fields having passed through one
  byte.
\<close>

definition received_as :: "DeviceData \<Rightarrow> DeviceData \<Rightarrow> DeviceData" where
  "received_as blank d =
     blank\<lparr>deviceId := deviceId d,
           deviceType := ucast (ucast (deviceType d) :: u8),
           trackingState := ucast (ucast (trackingState d) :: u8),
           isConnected := isConnected d,
           pose := pose d,
           buttons := (buttons blank)\<lparr>trigger := trigger (buttons d), grip := grip (buttons d),
             triggerValue := triggerValue (buttons d), gripValue := gripValue (buttons d)\<rparr>\<rparr>"

text \<open>
  Equality on the fields the wire format carries: device id, device type, tracking state,
  connected flag, the whole pose (three position floats, four rotation floats, pose
  timestamp) and the trigger and grip flags and values. Floats are bit patterns, so the
  comparison is bit for bit.
\<close>

definition same_wire_fields :: "DeviceData \<Rightarrow> DeviceData \<Rightarrow> bool" where
  "same_wire_fields d d' \<longleftrightarrow>
     deviceId d' = deviceId d \<and> deviceType d' = deviceType d \<and>
     trackingState d' = trackingState d \<and> isConnected d' = isConnected d \<and>
     pose d' = pose d \<and>
     trigger (buttons d') = trigger (buttons d) \<and> grip (buttons d') = grip (buttons d) \<and>
     triggerValue (buttons d') = triggerValue (buttons d) \<and>
     gripValue (buttons d') = gripValue (buttons d)"

text \<open>The enum fields hold a value that one byte can carry, as every enumerator does.\<close>

definition enums_fit_byte :: "DeviceData \<Rightarrow> bool" where
  "enums_fit_byte d \<longleftrightarrow> deviceType d < 256 \<and> trackingState d < 256"

subsection \<open>Sample values\<close>

definition zero_device :: DeviceData where
  "zero_device =
     \<lparr>deviceId = 0, deviceType = DeviceType_Unknown, trackingState = NotTracked,
      pose = \<lparr>position = \<lparr>v3_x = 0, v3_y = 0, v3_z = 0\<rparr>,
              rotation = \<lparr>q_w = 0, q_x = 0, q_y = 0, q_z = 0\<rparr>, timestamp = 0\<rparr>,
      buttons = \<lparr>trigger = False, grip = False, menu = False, touchpad = False,
                 thumbstick = False, triggerValue = 0, gripValue = 0,
                 touchpadAxis = \<lparr>v3_x = 0, v3_y = 0, v3_z = 0\<rparr>,
                 thumbstickAxis = \<lparr>v3_x = 0, v3_y = 0, v3_z = 0\<rparr>\<rparr>,
      isConnected = False, deviceName = []\<rparr>"

text \<open>The controller of \<^verbatim>\<open>testDeserialization\<close>, position (1.5, 1.2, -0.3), rotation all 0.5.\<close>

definition test_device :: DeviceData where
  "test_device =
     zero_device\<lparr>deviceId := 5, deviceType := RightController,
       pose := \<lparr>position = \<lparr>v3_x = 0x3FC00000, v3_y = 0x3F99999A, v3_z = 0xBE99999A\<rparr>,
                rotation = \<lparr>q_w = 0x3F000000, q_x = 0x3F000000, q_y = 0x3F000000,
                             q_z = 0x3F000000\<rparr>,
                timestamp = 0\<rparr>\<rparr>"

definition test_packet :: DataPacket where
  "test_packet =
     \<lparr>m_devices = [test_device], m_timestamp = 123456789, m_sequenceNumber = 42,
      m_format = Binary\<rparr>"

definition empty_packet :: "PacketFormat \<Rightarrow> DataPacket" where
  "empty_packet f = \<lparr>m_devices = [], m_timestamp = 0, m_sequenceNumber = 0, m_format = f\<rparr>"

text \<open>A float printer for closed examples; the properties below hold for every printer.\<close>

definition print_zero :: "float32 \<Rightarrow> string" where
  "print_zero f = ''0''"

text \<open>A packet whose one device carries the device-type value 256, which no byte holds.\<close>

definition wide_type_packet :: DataPacket where
  "wide_type_packet =
     \<lparr>m_devices = [zero_device\<lparr>deviceType := 256\<rparr>], m_timestamp = 0, m_sequenceNumber = 0,
      m_format = Binary\<rparr>"

text \<open>A packet with \<open>2 ^ 32\<close> devices, one more than \<^verbatim>\<open>uint32_t deviceCount\<close> can count.\<close>

definition overlong_packet :: DataPacket where
  "overlong_packet =
     \<lparr>m_devices = replicate (2 ^ 32) zero_device, m_timestamp = 0, m_sequenceNumber = 0,
      m_format = Binary\<rparr>"

definition json_packet :: DataPacket where
  "json_packet =
     \<lparr>m_devices = [zero_device], m_timestamp = 0, m_sequenceNumber = 0, m_format = JSON\<rparr>"

text \<open>The header of \<open>test_packet\<close> with the last magic byte changed from \<^verbatim>\<open>L\<close> to \<^verbatim>\<open>K\<close>.\<close>

definition wrong_magic_buffer :: "u8 list" where
  "wrong_magic_buffer =
     [0x41, 0x49, 0x4D, 0x4B, 0, 1, 0, 0, 0, 42, 0, 0, 0, 0, 0, 0, 0, 0, 0, 0, 0, 0]"

section \<open>Streaming scheduler (src/VRDataStreamer.cpp)\<close>

text \<open>
  \<^verbatim>\<open>VRDataStreamer::Impl\<close>. The two \<^verbatim>\<open>unique_ptr\<close> members and the two \<^verbatim>\<open>std::function\<close>
  members are tested for being set and are modelled by that flag; what they do when called
  comes from the environment below. Clock readings are nanosecond counts.
\<close>

record Impl =
  vrDevice :: bool
  networkManager :: bool
  isStreaming :: bool
  shouldStop :: bool
  errorCallback :: bool
  dataSentCallback :: bool
  lastError :: string
  totalPacketsSent :: u64
  startTime :: int
  sequenceNumber :: u32

text \<open>What one call of \<^verbatim>\<open>sendFrame\<close> meets outside the class.\<close>

record frame_env =
  update_ok :: bool  \<comment> \<open>result of \<^verbatim>\<open>vrDevice->update()\<close>\<close>
  devices :: "DeviceData list"  \<comment> \<open>result of \<^verbatim>\<open>vrDevice->getDevices()\<close>\<close>
  send_ok :: bool  \<comment> \<open>result of \<^verbatim>\<open>networkManager->send(packet)\<close>\<close>
  net_error :: string  \<comment> \<open>result of \<^verbatim>\<open>networkManager->getLastError()\<close>\<close>

text \<open>What the outside sees of a call: the packet given to the network and the callbacks run.\<close>

datatype event =
  NetSend DataPacket
  | ErrorReported string
  | DataSent DataPacket

definition startStreaming :: "bool \<Rightarrow> int \<Rightarrow> Impl \<Rightarrow> bool \<times> Impl" where
  "startStreaming connected now s =
     (if isStreaming s then (False, s)
      else if \<not> vrDevice s \<or> \<not> networkManager s
        then (False, s\<lparr>lastError := ''System not initialized''\<rparr>)
      else if \<not> connected then (False, s\<lparr>lastError := ''Not connected to server''\<rparr>)
      else (True, s\<lparr>isStreaming := True, shouldStop := False, totalPacketsSent := 0,
                      sequenceNumber := 0, startTime := now\<rparr>))"

text \<open>
  \<^verbatim>\<open>packet.setSequenceNumber(m_pImpl->sequenceNumber++)\<close> gives the packet the counter's
  value and then adds one to the counter, in \<^verbatim>\<open>uint32_t\<close>. The timestamp is the clock
  reading in whole microseconds.
\<close>

definition sendFrame :: "frame_env \<Rightarrow> int \<Rightarrow> Impl \<Rightarrow> bool \<times> event list \<times> Impl" where
  "sendFrame env now s =
     (if \<not> vrDevice s \<or> \<not> networkManager s then (False, [], s)
      else if \<not> update_ok env then (False, [], s\<lparr>lastError := ''Failed to update VR device''\<rparr>)
      else
        let packet = \<lparr>m_devices = devices env, m_timestamp = of_int (now sdiv 1000),
                       m_sequenceNumber = sequenceNumber s, m_format = Binary\<rparr>;
            s1 = s\<lparr>sequenceNumber := sequenceNumber s + 1\<rparr>
        in if \<not> send_ok env then
             let s2 = s1\<lparr>lastError := ''Failed to send packet: '' @ net_error env\<rparr>
             in (False,
                 NetSend packet # (if errorCallback s2 then [ErrorReported (lastError s2)] else []),
                 s2)
           else
             let s2 = s1\<lparr>totalPacketsSent := totalPacketsSent s1 + 1\<rparr>
             in (True, NetSend packet # (if dataSentCallback s2 then [DataSent packet] else []), s2))"

text \<open>
  The streaming thread. Its state is the thread's clock, the local \<^verbatim>\<open>nextFrameTime\<close> and
  the object. Each pass of the loop meets: whether \<^verbatim>\<open>stopStreaming\<close> has run since the last
  pass, what \<^verbatim>\<open>sendFrame\<close> meets, how long that call takes, and by how much a sleep
  overshoots. A sleep never ends early.
\<close>

record Scheduler =
  clock_now :: int
  nextFrameTime :: int
  impl :: Impl

record tick_env =
  stop_requested :: bool
  frame :: frame_env
  work_time :: nat
  late_wakeup :: nat

datatype action =
  Event event
  | SleepFor int
  | SleepUntil int

text \<open>\<^verbatim>\<open>std::chrono::microseconds(1000000 / config.updateRate)\<close>, in nanoseconds; dividing by a zero
  rate is undefined.\<close>

definition frameDuration :: "u32 \<Rightarrow> int option" where
  "frameDuration updateRate =
     (if updateRate = 0 then None else Some (1000 * uint (1000000 div updateRate)))"

text \<open>
  The body of the \<^verbatim>\<open>while\<close> loop, from \<^verbatim>\<open>frameStart\<close> to the end of the pass. The clock
  reading that \<^verbatim>\<open>sendFrame\<close> takes for the packet's timestamp is the one at the start of the
  pass: the time \<^verbatim>\<open>update()\<close> and \<^verbatim>\<open>getDevices()\<close> take before it is counted in \<open>work_time\<close>
  only, and no property below depends on the timestamp.
\<close>

definition streaming_tick :: "int \<Rightarrow> tick_env \<Rightarrow> Scheduler \<Rightarrow> action list \<times> Scheduler" where
  "streaming_tick period e st =
     (case sendFrame (frame e) (clock_now st) (impl st) of
        (ok, evs, s') \<Rightarrow>
          if \<not> ok then
            (map Event evs @ [SleepFor 100000000],
             st\<lparr>clock_now := clock_now st + int (work_time e) + 100000000 + int (late_wakeup e),
                impl := s'\<rparr>)
          else
            let deadline = nextFrameTime st + period;
                now = clock_now st + int (work_time e)
            in if deadline > now then
                 (map Event evs @ [SleepUntil deadline],
                  st\<lparr>clock_now := deadline + int (late_wakeup e), nextFrameTime := deadline,
                     impl := s'\<rparr>)
               else
                 (map Event evs, st\<lparr>clock_now := now, nextFrameTime := now, impl := s'\<rparr>))"

text \<open>
  \<^verbatim>\<open>while (!m_pImpl->shouldStop)\<close> over the passes the environment list describes. The list
  is a finite stretch of the run: the loop itself ends only through \<^verbatim>\<open>shouldStop\<close>.
\<close>

fun streamingLoop :: "int \<Rightarrow> tick_env list \<Rightarrow> Scheduler \<Rightarrow> action list \<times> Scheduler" where
  "streamingLoop period [] st = ([], st)"
| "streamingLoop period (e # es) st =
     (let s = (if stop_requested e \<and> isStreaming (impl st)
               then (impl st)\<lparr>shouldStop := True, isStreaming := False\<rparr> else impl st)
      in if shouldStop s then ([], st\<lparr>impl := s\<rparr>)
         else case streaming_tick period e (st\<lparr>impl := s\<rparr>) of
           (acts, st') \<Rightarrow>
             (case streamingLoop period es st' of (later, st'') \<Rightarrow> (acts @ later, st'')))"

text \<open>\<^verbatim>\<open>auto nextFrameTime = now()\<close>, then the loop.\<close>

definition streamingThreadFunc ::
    "u32 \<Rightarrow> tick_env list \<Rightarrow> int \<Rightarrow> Impl \<Rightarrow> (action list \<times> Scheduler) option" where
  "streamingThreadFunc updateRate envs now s =
     (case frameDuration updateRate of
        None \<Rightarrow> None
      | Some period \<Rightarrow>
          Some (streamingLoop period envs \<lparr>clock_now = now, nextFrameTime = now, impl = s\<rparr>))"

text \<open>The packets a run handed to the network, in order.\<close>

fun frames_of :: "action list \<Rightarrow> DataPacket list" where
  "frames_of [] = []"
| "frames_of (Event (NetSend p) # as) = p # frames_of as"
| "frames_of (a # as) = frames_of as"



text \<open>The sleeps among the actions of a run, in order.\<close>

fun sleeps_of :: "action list \<Rightarrow> action list" where
  "sleeps_of [] = []"
| "sleeps_of (Event ev # as) = sleeps_of as"
| "sleeps_of (a # as) = a # sleeps_of as"

subsection \<open>Sample values\<close>

definition ready_impl :: Impl where
  "ready_impl =
     \<lparr>vrDevice = True, networkManager = True, isStreaming = False, shouldStop = False,
      errorCallback = True, dataSentCallback = True, lastError = [], totalPacketsSent = 7,
      startTime = 0, sequenceNumber = 99\<rparr>"

definition good_frame :: frame_env where
  "good_frame = \<lparr>update_ok = True, devices = [test_device], send_ok = True, net_error = []\<rparr>"

definition failing_frame :: frame_env where
  "failing_frame =
     \<lparr>update_ok = True, devices = [test_device], send_ok = False, net_error = ''Send failed''\<rparr>"

definition good_tick :: tick_env where
  "good_tick = \<lparr>stop_requested = False, frame = good_frame, work_time = 1000000, late_wakeup = 0\<rparr>"

definition failing_tick :: tick_env where
  "failing_tick = \<lparr>stop_requested = False, frame = failing_frame, work_time = 0, late_wakeup = 0\<rparr>"

text \<open>The thread as it enters the loop at time 0, at 90 Hz: a period of 11111 microseconds.\<close>

definition fresh_scheduler :: Scheduler where
  "fresh_scheduler =
     \<lparr>clock_now = 0, nextFrameTime = 0, impl = snd (startStreaming True 0 ready_impl)\<rparr>"

section \<open>Strings of the text protocols\<close>

text \<open>
  \<^verbatim>\<open>std::stoi\<close>: white space is skipped, one sign is taken, then the decimal digits; what
  follows them is ignored. Without a digit it throws \<^verbatim>\<open>std::invalid_argument\<close>, and a
  value outside \<^verbatim>\<open>int\<close> throws \<^verbatim>\<open>std::out_of_range\<close>.
\<close>

datatype exn = invalid_argument | out_of_range

definition isspace :: "char \<Rightarrow> bool" where
  "isspace c \<longleftrightarrow> c \<in> set [CHR '' '', CHR 0x09, CHR 0x0A, CHR 0x0B, CHR 0x0C, CHR 0x0D]"

definition isdigit :: "char \<Rightarrow> bool" where
  "isdigit c \<longleftrightarrow> (48 :: nat) \<le> of_char c \<and> of_char c \<le> (57 :: nat)"

definition decimal :: "string \<Rightarrow> nat" where
  "decimal ds = foldl (\<lambda>a c. 10 * a + (of_char c - 48)) 0 ds"

definition stoi :: "string \<Rightarrow> exn + int" where
  "stoi str =
     (let s1 = dropWhile isspace str;
          negative = (s1 \<noteq> [] \<and> hd s1 = CHR ''-'');
          s2 = (if s1 \<noteq> [] \<and> (hd s1 = CHR ''-'' \<or> hd s1 = CHR ''+'') then tl s1 else s1);
          ds = takeWhile isdigit s2
      in if ds = [] then Inl invalid_argument
         else let v = (if negative then - int (decimal ds) else int (decimal ds))
              in if v < - 2147483648 \<or> 2147483647 < v then Inl out_of_range else Inr v)"

text \<open>
  \<^verbatim>\<open>std::getline(stream, token, delim)\<close> on what is left of a stream: the token up to the
  first delimiter, and what is left after the delimiter. At the end of the stream the
  token is empty.
\<close>

definition getline :: "char \<Rightarrow> string \<Rightarrow> string \<times> string" where
  "getline delim s = (takeWhile (\<lambda>c. c \<noteq> delim) s, drop 1 (dropWhile (\<lambda>c. c \<noteq> delim) s))"

text \<open>\<^verbatim>\<open>s.find(p) == 0\<close>: \<open>s\<close> begins with \<open>p\<close>.\<close>

definition starts_with :: "string \<Rightarrow> string \<Rightarrow> bool" where
  "starts_with p s \<longleftrightarrow> take (length p) s = p"

section \<open>Network module (aimlab_network_cpp.cpp)\<close>

definition DISCOVERY_PORT :: int where "DISCOVERY_PORT = 45000"
definition CONNECTION_TIMEOUT_MS :: int where "CONNECTION_TIMEOUT_MS = 15000"
definition PROTOCOL_VERSION :: string where "PROTOCOL_VERSION = ''1.0''"
definition APP_IDENTIFIER :: string where "APP_IDENTIFIER = ''AIMLAB_VR''"

text \<open>
  \<^verbatim>\<open>enum class MessageType\<close> is read off the wire with
  \<^verbatim>\<open>static_cast<MessageType>(std::stoi(...))\<close>, which yields a value for every \<^verbatim>\<open>int\<close>; it is
  modelled as that \<^verbatim>\<open>int\<close>, with the enumerators as named constants.
\<close>

type_synonym MessageType = int

definition DISCOVER :: MessageType where "DISCOVER = 0"
definition ACKNOWLEDGE :: MessageType where "ACKNOWLEDGE = 1"
definition HANDSHAKE_START :: MessageType where "HANDSHAKE_START = 2"
definition HANDSHAKE_ACK :: MessageType where "HANDSHAKE_ACK = 3"
definition HANDSHAKE_COMPLETE :: MessageType where "HANDSHAKE_COMPLETE = 4"
definition DATA :: MessageType where "DATA = 5"
definition HEARTBEAT :: MessageType where "HEARTBEAT = 6"
definition DISCONNECT :: MessageType where "DISCONNECT = 7"
definition MSG_ERROR :: MessageType where "MSG_ERROR = 8"

record Message =
  msg_type :: MessageType
  payload :: string
  sender_ip :: string
  sender_port :: int

definition Message_serialize :: "Message \<Rightarrow> string" where
  "Message_serialize msg = to_string (msg_type msg) @ ''|'' @ payload msg"

definition Message_deserialize :: "string \<Rightarrow> exn + Message" where
  "Message_deserialize data =
     (if CHR ''|'' \<in> set data then
        case stoi (takeWhile (\<lambda>c. c \<noteq> CHR ''|'') data) of
          Inl e \<Rightarrow> Inl e
        | Inr t \<Rightarrow>
            Inr \<lparr>msg_type = t, payload = drop 1 (dropWhile (\<lambda>c. c \<noteq> CHR ''|'') data),
                 sender_ip = [], sender_port = 0\<rparr>
      else Inr \<lparr>msg_type = DATA, payload = [], sender_ip = [], sender_port = 0\<rparr>)"

text \<open>Clock readings of \<^verbatim>\<open>steady_clock\<close> are nanosecond counts.\<close>

record PeerInfo =
  ip_address :: string
  port :: int
  last_heartbeat :: int
  is_connected :: bool

text \<open>
  \<^verbatim>\<open>duration_cast<milliseconds>\<close> drops the fraction of a millisecond, towards zero, before
  the comparison with the threshold.
\<close>

definition is_timeout :: "int \<Rightarrow> PeerInfo \<Rightarrow> bool" where
  "is_timeout now p \<longleftrightarrow> (now - last_heartbeat p) sdiv 1000000 > CONNECTION_TIMEOUT_MS"

definition update_heartbeat :: "int \<Rightarrow> PeerInfo \<Rightarrow> PeerInfo" where
  "update_heartbeat now p = p\<lparr>last_heartbeat := now\<rparr>"

text \<open>
  The manager. \<^verbatim>\<open>std::map<std::string, PeerInfo>\<close> is the list of its entries in key order.
  The datagrams given to the discovery socket and the calls of the message handler are
  recorded in the state.
\<close>

record NetworkManager =
  peers :: "(string \<times> PeerInfo) list"
  incoming_messages :: "Message list"
  outgoing_messages :: "Message list"
  discovery_sent :: "(string \<times> string \<times> int) list"
  message_handler :: bool
  handler_calls :: "Message list"
  data_local_port :: int

definition peer_key :: "string \<Rightarrow> int \<Rightarrow> string" where
  "peer_key ip p = ip @ '':'' @ to_string p"

text \<open>\<^verbatim>\<open>peers[peer_id] = info\<close> for a key that \<^verbatim>\<open>find\<close> did not meet: a new entry, in key order.\<close>

definition peers_insert :: "string \<Rightarrow> PeerInfo \<Rightarrow> (string \<times> PeerInfo) list \<Rightarrow> (string \<times> PeerInfo) list" where
  "peers_insert k info al = insort_key fst (k, info) al"

definition initiate_handshake :: "string \<Rightarrow> int \<Rightarrow> NetworkManager \<Rightarrow> NetworkManager" where
  "initiate_handshake ip p nm =
     nm\<lparr>outgoing_messages := outgoing_messages nm @
          [\<lparr>msg_type = HANDSHAKE_START, payload = PROTOCOL_VERSION, sender_ip = ip,
            sender_port = p\<rparr>]\<rparr>"

text \<open>The datagram \<^verbatim>\<open>discovery_worker\<close> broadcasts to the discovery port.\<close>

definition discovery_broadcast :: "NetworkManager \<Rightarrow> string" where
  "discovery_broadcast nm =
     Message_serialize \<lparr>msg_type = DISCOVER,
       payload = APP_IDENTIFIER @ '':'' @ to_string (data_local_port nm),
       sender_ip = [], sender_port = 0\<rparr>"

definition handle_discovery_message ::
    "int \<Rightarrow> string \<Rightarrow> string \<Rightarrow> NetworkManager \<Rightarrow> exn + NetworkManager" where
  "handle_discovery_message now data from_ip nm =
     (case Message_deserialize data of
        Inl e \<Rightarrow> Inl e
      | Inr msg \<Rightarrow>
          if starts_with APP_IDENTIFIER (payload msg) \<and> CHR '':'' \<in> set (payload msg) then
            case stoi (rev (takeWhile (\<lambda>c. c \<noteq> CHR '':'') (rev (payload msg)))) of
              Inl e \<Rightarrow> Inl e
            | Inr peer_port \<Rightarrow>
                let peer_id = peer_key from_ip peer_port in
                if map_of (peers nm) peer_id = None then
                  let nm1 = nm\<lparr>peers := peers_insert peer_id
                              \<lparr>ip_address = from_ip, port = peer_port, last_heartbeat = now,
                                is_connected = False\<rparr> (peers nm)\<rparr>
                  in if msg_type msg = DISCOVER then
                       Inr (initiate_handshake from_ip peer_port
                         (nm1\<lparr>discovery_sent := discovery_sent nm1 @
                            [(Message_serialize \<lparr>msg_type = ACKNOWLEDGE,
                                payload = APP_IDENTIFIER @ '':'' @ to_string (data_local_port nm1),
                                sender_ip = [], sender_port = 0\<rparr>,
                              from_ip, DISCOVERY_PORT)]\<rparr>))
                     else Inr nm1
                else Inr nm
          else Inr nm)"

definition mark_peer_connected :: "int \<Rightarrow> string \<Rightarrow> int \<Rightarrow> NetworkManager \<Rightarrow> NetworkManager" where
  "mark_peer_connected now ip p nm =
     (if map_of (peers nm) (peer_key ip p) \<noteq> None
      then nm\<lparr>peers := AList.map_entry (peer_key ip p)
                 (\<lambda>info. update_heartbeat now (info\<lparr>is_connected := True\<rparr>)) (peers nm)\<rparr>
      else nm)"

definition handle_handshake_start :: "Message \<Rightarrow> NetworkManager \<Rightarrow> NetworkManager" where
  "handle_handshake_start msg nm =
     nm\<lparr>outgoing_messages := outgoing_messages nm @
          [\<lparr>msg_type = HANDSHAKE_ACK, payload = PROTOCOL_VERSION, sender_ip = sender_ip msg,
            sender_port = sender_port msg\<rparr>]\<rparr>"

definition handle_handshake_ack :: "int \<Rightarrow> Message \<Rightarrow> NetworkManager \<Rightarrow> NetworkManager" where
  "handle_handshake_ack now msg nm =
     mark_peer_connected now (sender_ip msg) (sender_port msg)
       (nm\<lparr>outgoing_messages := outgoing_messages nm @
            [\<lparr>msg_type = HANDSHAKE_COMPLETE, payload = [], sender_ip = sender_ip msg,
              sender_port = sender_port msg\<rparr>]\<rparr>)"

definition handle_handshake_complete :: "int \<Rightarrow> Message \<Rightarrow> NetworkManager \<Rightarrow> NetworkManager" where
  "handle_handshake_complete now msg nm =
     mark_peer_connected now (sender_ip msg) (sender_port msg) nm"

definition handle_disconnect :: "Message \<Rightarrow> NetworkManager \<Rightarrow> NetworkManager" where
  "handle_disconnect msg nm =
     nm\<lparr>peers := AList.delete (peer_key (sender_ip msg) (sender_port msg)) (peers nm)\<rparr>"

text \<open>The first block of \<^verbatim>\<open>handle_incoming_message\<close>: the sender's entry, if there is one, is
  given the clock reading.\<close>

definition refresh_sender :: "int \<Rightarrow> Message \<Rightarrow> NetworkManager \<Rightarrow> NetworkManager" where
  "refresh_sender now msg nm =
     (if map_of (peers nm) (peer_key (sender_ip msg) (sender_port msg)) \<noteq> None
      then nm\<lparr>peers := AList.map_entry (peer_key (sender_ip msg) (sender_port msg))
                 (update_heartbeat now) (peers nm)\<rparr>
      else nm)"

text \<open>The \<^verbatim>\<open>switch\<close> on the message type; \<open>now\<close> is the clock as \<^verbatim>\<open>mark_peer_connected\<close> reads it.\<close>

definition dispatch_message :: "int \<Rightarrow> Message \<Rightarrow> NetworkManager \<Rightarrow> NetworkManager" where
  "dispatch_message now msg nm =
     (if msg_type msg = HANDSHAKE_START then handle_handshake_start msg nm
      else if msg_type msg = HANDSHAKE_ACK then handle_handshake_ack now msg nm
      else if msg_type msg = HANDSHAKE_COMPLETE then handle_handshake_complete now msg nm
      else if msg_type msg = DATA then
        (let nm1 = nm\<lparr>incoming_messages := incoming_messages nm @ [msg]\<rparr>
         in if message_handler nm1 then nm1\<lparr>handler_calls := handler_calls nm1 @ [msg]\<rparr> else nm1)
      else if msg_type msg = HEARTBEAT then nm
      else if msg_type msg = DISCONNECT then handle_disconnect msg nm
      else nm)"

definition handle_incoming_message ::
    "int \<Rightarrow> int \<Rightarrow> Message \<Rightarrow> NetworkManager \<Rightarrow> NetworkManager" where
  "handle_incoming_message now later msg nm = dispatch_message later msg (refresh_sender now msg nm)"

text \<open>
  One pass of the \<^verbatim>\<open>for\<close> loop of \<^verbatim>\<open>heartbeat_worker\<close> over the peers in key order; \<open>clock k\<close>
  is the reading \<^verbatim>\<open>is_timeout\<close> takes when the entry with key \<open>k\<close> is looked at. The result
  is the entries as the pass leaves them and the heartbeats it has queued.
\<close>

fun heartbeat_pass ::
    "(string \<Rightarrow> int) \<Rightarrow> (string \<times> PeerInfo) list \<Rightarrow> (string \<times> PeerInfo) list \<times> Message list" where
  "heartbeat_pass clock [] = ([], [])"
| "heartbeat_pass clock ((peer_id, peer_info) # rest) =
     (case heartbeat_pass clock rest of
        (rest', queued) \<Rightarrow>
          if is_connected peer_info then
            if is_timeout (clock peer_id) peer_info
            then ((peer_id, peer_info\<lparr>is_connected := False\<rparr>) # rest', queued)
            else ((peer_id, peer_info) # rest',
                  \<lparr>msg_type = HEARTBEAT, payload = [], sender_ip = ip_address peer_info,
                   sender_port = port peer_info\<rparr> # queued)
          else ((peer_id, peer_info) # rest', queued))"

definition heartbeat_sweep :: "(string \<Rightarrow> int) \<Rightarrow> NetworkManager \<Rightarrow> NetworkManager" where
  "heartbeat_sweep clock nm =
     (case heartbeat_pass clock (peers nm) of
        (ps, queued) \<Rightarrow> nm\<lparr>peers := ps, outgoing_messages := outgoing_messages nm @ queued\<rparr>)"

subsection \<open>Sample values\<close>

definition idle_manager :: NetworkManager where
  "idle_manager =
     \<lparr>peers = [], incoming_messages = [], outgoing_messages = [], discovery_sent = [],
      message_handler = False, handler_calls = [], data_local_port = 45001\<rparr>"

definition known_peer :: PeerInfo where
  "known_peer =
     \<lparr>ip_address = ''192.168.1.20'', port = 45001, last_heartbeat = 0, is_connected = False\<rparr>"

definition manager_with_peer :: NetworkManager where
  "manager_with_peer = idle_manager\<lparr>peers := [(''192.168.1.20:45001'', known_peer)]\<rparr>"

definition ack_from_peer :: Message where
  "ack_from_peer =
     \<lparr>msg_type = HANDSHAKE_ACK, payload = ''1.0'', sender_ip = ''192.168.1.20'',
      sender_port = 45001\<rparr>"

section \<open>Chat node 2 (minimal_test/udp_chat_node2.cpp)\<close>

definition CHAT_PORT :: int where "CHAT_PORT = 50003"
definition NODE_ID :: string where "NODE_ID = ''NODE2''"
definition PEER_ID :: string where "PEER_ID = ''NODE1''"

definition MSG_DISCOVER :: string where "MSG_DISCOVER = ''DISCOVER''"
definition MSG_ACKNOWLEDGE :: string where "MSG_ACKNOWLEDGE = ''ACK''"
definition MSG_HANDSHAKE :: string where "MSG_HANDSHAKE = ''HANDSHAKE''"
definition MSG_READY :: string where "MSG_READY = ''READY''"

text \<open>
  The globals the discovery thread writes, and the datagrams it has sent to a sender's
  address (datagram and address).
\<close>

record discovery_state =
  peer_discovered :: bool
  peer_address :: string
  peer_port :: int
  replies_sent :: "(string \<times> string) list"

text \<open>
  The body of \<^verbatim>\<open>if (recv_len > 0)\<close> in \<^verbatim>\<open>discoveryThread\<close>, for the received text and the
  sender's address. \<^verbatim>\<open>peer_address\<close> is written before \<^verbatim>\<open>std::stoi\<close> can throw; a throw
  ends the thread and is the result \<open>Inl\<close>.
\<close>

definition discovery_receive ::
    "string \<Rightarrow> string \<Rightarrow> discovery_state \<Rightarrow> exn + discovery_state" where
  "discovery_receive received sender st =
     (case getline CHR '':'' received of
        (kind, r1) \<Rightarrow>
          (case getline CHR '':'' r1 of
             (sender_id, r2) \<Rightarrow>
               (case getline CHR '':'' r2 of
                  (sender_port_str, r3) \<Rightarrow>
                    if kind = MSG_DISCOVER \<and> sender_id = PEER_ID then
                      (case stoi sender_port_str of
                         Inl e \<Rightarrow> Inl e
                       | Inr p \<Rightarrow>
                           Inr (st\<lparr>peer_address := sender, peer_port := p,
                                   replies_sent := replies_sent st @
                                     [(MSG_ACKNOWLEDGE @ '':'' @ NODE_ID @ '':'' @ to_string CHAT_PORT,
                                       sender)],
                                   peer_discovered := True\<rparr>))
                    else if kind = MSG_ACKNOWLEDGE \<and> sender_id = PEER_ID then
                      (case stoi sender_port_str of
                         Inl e \<Rightarrow> Inl e
                       | Inr p \<Rightarrow>
                           Inr (st\<lparr>peer_address := sender, peer_port := p,
                                   peer_discovered := True\<rparr>))
                    else Inr st)))"

text \<open>The second field of a received text, which the thread compares with \<^verbatim>\<open>PEER_ID\<close>.\<close>

definition sender_id_of :: "string \<Rightarrow> string" where
  "sender_id_of received = fst (getline CHR '':'' (snd (getline CHR '':'' received)))"

text \<open>The datagram this node broadcasts: \<^verbatim>\<open>MSG_DISCOVER + ":" + NODE_ID + ":" + CHAT_PORT\<close>.\<close>

definition discover_msg :: string where
  "discover_msg = MSG_DISCOVER @ '':'' @ NODE_ID @ '':'' @ to_string CHAT_PORT"

text \<open>
  \<^verbatim>\<open>performHandshake\<close>. \<open>recv k\<close> is what the call of \<^verbatim>\<open>recvfrom\<close> in pass \<open>k\<close> delivers:
  \<open>None\<close> when nothing has arrived, else the text of the datagram.
\<close>

record handshake =
  attempts :: nat
  handshake_sent :: bool
  handshake_received :: bool
  to_peer :: "string list"

text \<open>One pass of the \<^verbatim>\<open>while\<close> loop.\<close>

definition handshake_step :: "(nat \<Rightarrow> string option) \<Rightarrow> handshake \<Rightarrow> handshake" where
  "handshake_step recv h =
     (let h1 = (if \<not> handshake_sent h
                then h\<lparr>to_peer := to_peer h @ [MSG_HANDSHAKE @ '':'' @ NODE_ID]\<rparr> else h);
          h2 = (case recv (attempts h) of
                  None \<Rightarrow> h1
                | Some received \<Rightarrow>
                    if starts_with MSG_HANDSHAKE received
                    then h1\<lparr>handshake_received := True,
                            to_peer := to_peer h1 @ [MSG_READY @ '':'' @ NODE_ID]\<rparr>
                    else if starts_with MSG_READY received
                    then h1\<lparr>handshake_sent := True\<rparr>
                    else h1)
      in h2\<lparr>attempts := attempts h2 + 1\<rparr>)"

function handshake_loop :: "(nat \<Rightarrow> string option) \<Rightarrow> handshake \<Rightarrow> handshake" where
  "handshake_loop recv h =
     (if attempts h < 10 \<and> (\<not> handshake_sent h \<or> \<not> handshake_received h)
      then handshake_loop recv (handshake_step recv h)
      else h)"
  by pat_completeness auto
termination
  by (relation "measure (\<lambda>(recv, h). 10 - attempts h)")
    (auto simp add: handshake_step_def Let_def split: option.splits)

declare handshake_loop.simps [simp del]

definition performHandshake :: "(nat \<Rightarrow> string option) \<Rightarrow> bool \<times> handshake" where
  "performHandshake recv =
     (let h = handshake_loop recv
                \<lparr>attempts = 0, handshake_sent = False, handshake_received = False, to_peer = []\<rparr>
      in (handshake_sent h \<and> handshake_received h, h))"

text \<open>What the \<open>k\<close>-th receive brings, as the loop reads it.\<close>

definition brings_request :: "(nat \<Rightarrow> string option) \<Rightarrow> nat \<Rightarrow> bool" where
  "brings_request recv k =
     (case recv k of None \<Rightarrow> False | Some received \<Rightarrow> starts_with MSG_HANDSHAKE received)"

definition brings_ready :: "(nat \<Rightarrow> string option) \<Rightarrow> nat \<Rightarrow> bool" where
  "brings_ready recv k =
     (case recv k of
        None \<Rightarrow> False
      | Some received \<Rightarrow> \<not> starts_with MSG_HANDSHAKE received \<and> starts_with MSG_READY received)"

subsection \<open>Sample values\<close>

definition silent_discovery :: discovery_state where
  "silent_discovery =
     \<lparr>peer_discovered = False, peer_address = [], peer_port = 0, replies_sent = []\<rparr>"

text \<open>A peer that answers the second request and sends its own request on the fourth receive.\<close>

definition both_ways :: "nat \<Rightarrow> string option" where
  "both_ways k =
     (if k = 1 then Some ''READY:NODE1'' else if k = 3 then Some ''HANDSHAKE:NODE1'' else None)"

text \<open>A peer that only ever sends its own request.\<close>

definition requests_only :: "nat \<Rightarrow> string option" where
  "requests_only k = Some ''HANDSHAKE:NODE1''"

section \<open>Command channel (Old/minimal_test/C-Sharp-Package/aimlab_vr_datastreamer.cpp)\<close>

definition DATA_DIR :: string where "DATA_DIR = ''aimlab_data''"
definition MSG_STATUS :: string where "MSG_STATUS = ''STATUS''"
definition CMD_OPEN_FILE :: string where "CMD_OPEN_FILE = ''OPEN_FILE''"
definition CMD_CLOSE_FILE :: string where "CMD_CLOSE_FILE = ''CLOSE_FILE''"
definition CMD_STATUS :: string where "CMD_STATUS = ''GET_STATUS''"
definition CMD_SHUTDOWN :: string where "CMD_SHUTDOWN = ''SHUTDOWN''"

text \<open>
  The globals of the receiver that the command handler touches, and the lines written to
  data files (file name and line).
\<close>

record receiver =
  running :: bool
  file_open :: bool
  data_count :: int
  file_count :: int
  current_filename :: string
  written :: "(string \<times> string) list"

text \<open>What a command meets outside: whether the file opens, and the local time as
  \<^verbatim>\<open>put_time\<close> prints it.\<close>

record command_env =
  open_succeeds :: bool
  time_stamp :: string

definition generateFilename :: "command_env \<Rightarrow> receiver \<Rightarrow> string \<times> receiver" where
  "generateFilename env r =
     (DATA_DIR @ ''/aimlab_session_'' @ time_stamp env @ ''_'' @ to_string (file_count r) @ ''.csv'',
      r\<lparr>file_count := file_count r + 1\<rparr>)"

definition openDataFile :: "string \<Rightarrow> command_env \<Rightarrow> receiver \<Rightarrow> bool \<times> receiver" where
  "openDataFile filename env r =
     (if file_open r then (False, r)
      else
        case (if filename = [] then generateFilename env r else (DATA_DIR @ ''/'' @ filename, r)) of
          (name, r1) \<Rightarrow>
            let r2 = r1\<lparr>current_filename := name\<rparr>
            in if \<not> open_succeeds env then (False, r2)
               else (True, r2\<lparr>written := written r2 @ [(name, ''Timestamp,Type,Data'')],
                              file_open := True, data_count := 0\<rparr>))"

definition closeDataFile :: "receiver \<Rightarrow> receiver" where
  "closeDataFile r = (if \<not> file_open r then r else r\<lparr>file_open := False, current_filename := []\<rparr>)"

definition status_report :: "receiver \<Rightarrow> string" where
  "status_report r =
     MSG_STATUS @ '':RUNNING:'' @
     ''file_open='' @ (if file_open r then ''true'' else ''false'') @ '','' @
     ''filename='' @ (if file_open r then current_filename r else ''none'') @ '','' @
     ''data_count='' @ to_string (data_count r) @ '','' @
     ''files_created='' @ to_string (file_count r)"

text \<open>The command word: what stands before the first colon.\<close>

definition cmd_type_of :: "string \<Rightarrow> string" where
  "cmd_type_of command = fst (getline CHR '':'' command)"

definition processCommand :: "string \<Rightarrow> command_env \<Rightarrow> receiver \<Rightarrow> string \<times> receiver" where
  "processCommand command env r =
     (case getline CHR '':'' command of
        (cmd_type, rest) \<Rightarrow>
          if cmd_type = CMD_OPEN_FILE then
            (case openDataFile (fst (getline CHR 0x0A rest)) env r of
               (opened, r') \<Rightarrow>
                 if opened then (MSG_STATUS @ '':FILE_OPENED:'' @ current_filename r', r')
                 else (MSG_STATUS @ '':FILE_OPEN_FAILED'', r'))
          else if cmd_type = CMD_CLOSE_FILE then (MSG_STATUS @ '':FILE_CLOSED'', closeDataFile r)
          else if cmd_type = CMD_STATUS then (status_report r, r)
          else if cmd_type = CMD_SHUTDOWN then
            (MSG_STATUS @ '':SHUTTING_DOWN'',
             (if file_open r then closeDataFile r else r)\<lparr>running := False\<rparr>)
          else (MSG_STATUS @ '':UNKNOWN_COMMAND'', r))"

definition MSG_COMMAND :: string where "MSG_COMMAND = ''CMD''"
definition MSG_DATA :: string where "MSG_DATA = ''DATA''"
definition MSG_KEEPALIVE :: string where "MSG_KEEPALIVE = ''KEEPALIVE''"

text \<open>\<^verbatim>\<open>NODE_ID\<close> of the receiver.\<close>

definition NODE_ID_CPP :: string where "NODE_ID_CPP = ''AIMLAB_CPP''"

text \<open>\<^verbatim>\<open>writeData\<close>: a line with the clock's milliseconds, the type and the data.\<close>

definition writeData :: "string \<Rightarrow> string \<Rightarrow> int \<Rightarrow> receiver \<Rightarrow> receiver" where
  "writeData type_name data ms r =
     (if \<not> file_open r then r
      else r\<lparr>written := written r @
                [(current_filename r, to_string ms @ '','' @ type_name @ '','' @ data)],
             data_count := data_count r + 1\<rparr>)"

text \<open>
  One pass of the loop of \<^verbatim>\<open>dataReceiveThread\<close>. \<open>bytes\<close> is what \<^verbatim>\<open>recvfrom\<close> put into the
  buffer (nothing, when it returned no data), and \<^verbatim>\<open>std::string received(buffer)\<close> is the
  text up to the first zero byte. The message type is what stands before the first colon.
  For \<^verbatim>\<open>CMD\<close> the command is \<^verbatim>\<open>received.substr(4)\<close>, for \<^verbatim>\<open>DATA\<close> the content is
  \<^verbatim>\<open>received.substr(5)\<close>; \<^verbatim>\<open>substr\<close> throws \<^verbatim>\<open>std::out_of_range\<close> when the text is
  shorter than its argument, and nothing in the thread catches it. The result is the
  reply sent to the peer, if any, and the receiver's state; \<open>ms\<close> is the clock reading of
  \<^verbatim>\<open>writeData\<close>.
\<close>

definition dataReceive ::
    "string \<Rightarrow> int \<Rightarrow> command_env \<Rightarrow> receiver \<Rightarrow> exn + string option \<times> receiver" where
  "dataReceive bytes ms env r =
     (if bytes = [] then Inr (None, r)
      else
        let received = takeWhile (\<lambda>c. c \<noteq> CHR 0x00) bytes;
            message_type = fst (getline CHR '':'' received)
        in if message_type = MSG_COMMAND then
             (if length received < length MSG_COMMAND + 1 then Inl out_of_range
              else case processCommand (drop (length MSG_COMMAND + 1) received) env r of
                (response, r') \<Rightarrow> Inr (Some response, r'))
           else if message_type = MSG_DATA then
             (if length received < length MSG_DATA + 1 then Inl out_of_range
              else case getline CHR '':'' (drop (length MSG_DATA + 1) received) of
                (data_type, rest) \<Rightarrow>
                  Inr (None,
                       if file_open r then writeData data_type (fst (getline CHR 0x0A rest)) ms r
                       else r))
           else if message_type = MSG_KEEPALIVE then
             Inr (Some (MSG_KEEPALIVE @ '':'' @ NODE_ID_CPP), r)
           else Inr (None, r))"

subsection \<open>Sample values\<close>

definition idle_receiver :: receiver where
  "idle_receiver =
     \<lparr>running = True, file_open = False, data_count = 0, file_count = 0, current_filename = [],
      written = []\<rparr>"

definition noon :: command_env where
  "noon = \<lparr>open_succeeds = True, time_stamp = ''20251021_120000''\<rparr>"

text \<open>A connected peer last heard at time 0, and a clock that reads 15000.5 ms.\<close>

definition stale_peer :: PeerInfo where
  "stale_peer = known_peer\<lparr>is_connected := True\<rparr>"

definition manager_with_stale_peer :: NetworkManager where
  "manager_with_stale_peer = idle_manager\<lparr>peers := [(''192.168.1.20:45001'', stale_peer)]\<rparr>"

definition half_past :: "string \<Rightarrow> int" where
  "half_past k = 15000500000"

definition heartbeat_from_peer :: Message where
  "heartbeat_from_peer =
     \<lparr>msg_type = HEARTBEAT, payload = [], sender_ip = ''192.168.1.20'', sender_port = 45001\<rparr>"

definition twenty_seconds :: "string \<Rightarrow> int" where
  "twenty_seconds k = 20000000000"

section \<open>Codec: byte-level lemmas\<close>

lemma byte_mask: "(0xFF :: 'a::len word) = mask 8"
  by (simp add: mask_eq_exp_minus_1)

lemma ucast_byte32: "(ucast (ucast (w AND 0xFF :: u32) :: u8) :: u32) = take_bit 8 w"
  by (rule bit_word_eqI) (auto simp add: bit_simps byte_mask)

lemma ucast_byte64: "(ucast (ucast (w AND 0xFF :: u64) :: u8) :: u64) = take_bit 8 w"
  by (rule bit_word_eqI) (auto simp add: bit_simps byte_mask)

lemma join_bytes32:
  "push_bit 24 (take_bit 8 (drop_bit 24 v)) OR push_bit 16 (take_bit 8 (drop_bit 16 v)) OR
   push_bit 8 (take_bit 8 (drop_bit 8 v)) OR take_bit 8 v = (v :: u32)"
proof (rule bit_word_eqI)
  fix n assume "n < LENGTH(32)"
  then have n: "n < 32" by simp
  consider "n < 8" | "8 \<le> n" "n < 16" | "16 \<le> n" "n < 24" | "24 \<le> n"
    by linarith
  then show "bit (push_bit 24 (take_bit 8 (drop_bit 24 v)) OR
      push_bit 16 (take_bit 8 (drop_bit 16 v)) OR
      push_bit 8 (take_bit 8 (drop_bit 8 v)) OR take_bit 8 v) n = bit v n"
    using n by cases (auto simp add: bit_simps)
qed

lemma join_bytes64:
  "push_bit 8 (push_bit 8 (push_bit 8 (push_bit 8 (push_bit 8 (push_bit 8 (push_bit 8
     (take_bit 8 (drop_bit 56 v)) OR take_bit 8 (drop_bit 48 v)) OR take_bit 8 (drop_bit 40 v)) OR
     take_bit 8 (drop_bit 32 v)) OR take_bit 8 (drop_bit 24 v)) OR take_bit 8 (drop_bit 16 v)) OR
     take_bit 8 (drop_bit 8 v)) OR take_bit 8 v = (v :: u64)"
proof (rule bit_word_eqI)
  fix n assume "n < LENGTH(64)"
  then have n: "n < 64" by simp
  consider "n < 8" | "8 \<le> n" "n < 16" | "16 \<le> n" "n < 24" | "24 \<le> n" "n < 32"
    | "32 \<le> n" "n < 40" | "40 \<le> n" "n < 48" | "48 \<le> n" "n < 56" | "56 \<le> n"
    by linarith
  then show "bit (push_bit 8 (push_bit 8 (push_bit 8 (push_bit 8 (push_bit 8 (push_bit 8 (push_bit 8
     (take_bit 8 (drop_bit 56 v)) OR take_bit 8 (drop_bit 48 v)) OR take_bit 8 (drop_bit 40 v)) OR
     take_bit 8 (drop_bit 32 v)) OR take_bit 8 (drop_bit 24 v)) OR take_bit 8 (drop_bit 16 v)) OR
     take_bit 8 (drop_bit 8 v)) OR take_bit 8 v) n = bit v n"
    using n by cases (auto simp add: bit_simps)
qed

lemma or_zero_left: "push_bit 8 (0 :: u64) OR w = w"
  by simp

lemma byte_at_drop: "drop off data = b # rest \<Longrightarrow> byte_at data off = Some b"
proof -
  assume h: "drop off data = b # rest"
  then have "off < length data"
    by (metis drop_all linorder_not_less list.distinct(1))
  moreover from this h have "data ! off = b"
    by (metis hd_drop_conv_nth list.sel(1))
  ultimately show ?thesis by (simp add: byte_at_def)
qed

lemma drop_past: "drop off data = xs @ rest \<Longrightarrow> drop (off + length xs) data = rest"
proof -
  assume "drop off data = xs @ rest"
  then have "drop (length xs) (drop off data) = rest" by simp
  then show ?thesis by (simp add: add.commute)
qed

lemma readByte_drop: "drop off data = b # rest \<Longrightarrow> readByte data off = Some (b, off + 1)"
  by (simp add: readByte_def byte_at_drop)

lemma readUint32_drop:
  assumes "drop off data = writeUint32 v @ rest"
  shows "readUint32 data off = Some (v, off + 4)"
proof -
  let ?b3 = "ucast (drop_bit 24 v AND 0xFF) :: u8"
  let ?b2 = "ucast (drop_bit 16 v AND 0xFF) :: u8"
  let ?b1 = "ucast (drop_bit 8 v AND 0xFF) :: u8"
  let ?b0 = "ucast (v AND 0xFF) :: u8"
  have d0: "drop off data = ?b3 # ([?b2, ?b1, ?b0] @ rest)"
    using assms by (simp add: writeUint32_def)
  have d1: "drop (off + 1) data = ?b2 # ([?b1, ?b0] @ rest)"
    using drop_past [of off data "[?b3]"] d0 by (simp add: eval_nat_numeral)
  have d2: "drop (off + 2) data = ?b1 # ([?b0] @ rest)"
    using drop_past [of off data "[?b3, ?b2]"] d0 by (simp add: eval_nat_numeral)
  have d3: "drop (off + 3) data = ?b0 # rest"
    using drop_past [of off data "[?b3, ?b2, ?b1]"] d0 by (simp add: eval_nat_numeral)
  show ?thesis
    by (simp only: readUint32_def byte_at_drop [OF d0] byte_at_drop [OF d1]
        byte_at_drop [OF d2] byte_at_drop [OF d3] Option.bind.simps ucast_byte32 join_bytes32)
qed

lemma writeUint64_bytes:
  "writeUint64 v =
     [ucast (drop_bit 56 v AND 0xFF), ucast (drop_bit 48 v AND 0xFF),
      ucast (drop_bit 40 v AND 0xFF), ucast (drop_bit 32 v AND 0xFF),
      ucast (drop_bit 24 v AND 0xFF), ucast (drop_bit 16 v AND 0xFF),
      ucast (drop_bit 8 v AND 0xFF), ucast (v AND 0xFF)]"
  by (simp add: writeUint64_def upt_rec)

lemma readUint64_drop:
  assumes "drop off data = writeUint64 v @ rest"
  shows "readUint64 data off = Some (v, off + 8)"
proof -
  let ?b = "\<lambda>k. ucast (drop_bit k v AND 0xFF) :: u8"
  have d0: "drop off data = ?b 56 # ([?b 48, ?b 40, ?b 32, ?b 24, ?b 16, ?b 8, ?b 0] @ rest)"
    using assms by (simp add: writeUint64_bytes)
  have d1: "drop (off + 1) data = ?b 48 # ([?b 40, ?b 32, ?b 24, ?b 16, ?b 8, ?b 0] @ rest)"
    using drop_past [of off data "[?b 56]"] d0 by (simp add: eval_nat_numeral)
  have d2: "drop (off + 2) data = ?b 40 # ([?b 32, ?b 24, ?b 16, ?b 8, ?b 0] @ rest)"
    using drop_past [of off data "[?b 56, ?b 48]"] d0 by (simp add: eval_nat_numeral)
  have d3: "drop (off + 3) data = ?b 32 # ([?b 24, ?b 16, ?b 8, ?b 0] @ rest)"
    using drop_past [of off data "[?b 56, ?b 48, ?b 40]"] d0 by (simp add: eval_nat_numeral)
  have d4: "drop (off + 4) data = ?b 24 # ([?b 16, ?b 8, ?b 0] @ rest)"
    using drop_past [of off data "[?b 56, ?b 48, ?b 40, ?b 32]"] d0 by (simp add: eval_nat_numeral)
  have d5: "drop (off + 5) data = ?b 16 # ([?b 8, ?b 0] @ rest)"
    using drop_past [of off data "[?b 56, ?b 48, ?b 40, ?b 32, ?b 24]"] d0 by (simp add: eval_nat_numeral)
  have d6: "drop (off + 6) data = ?b 8 # ([?b 0] @ rest)"
    using drop_past [of off data "[?b 56, ?b 48, ?b 40, ?b 32, ?b 24, ?b 16]"] d0 by (simp add: eval_nat_numeral)
  have d7: "drop (off + 7) data = ?b 0 # rest"
    using drop_past [of off data "[?b 56, ?b 48, ?b 40, ?b 32, ?b 24, ?b 16, ?b 8]"] d0 by (simp add: eval_nat_numeral)
  have unroll: "readUint64 data off = do {
      b7 \<leftarrow> byte_at data off; b6 \<leftarrow> byte_at data (off + 1); b5 \<leftarrow> byte_at data (off + 2);
      b4 \<leftarrow> byte_at data (off + 3); b3 \<leftarrow> byte_at data (off + 4); b2 \<leftarrow> byte_at data (off + 5);
      b1 \<leftarrow> byte_at data (off + 6); b0 \<leftarrow> byte_at data (off + 7);
      Some (push_bit 8 (push_bit 8 (push_bit 8 (push_bit 8 (push_bit 8 (push_bit 8 (push_bit 8
        (push_bit 8 0 OR ucast b7) OR ucast b6) OR ucast b5) OR ucast b4) OR ucast b3) OR
        ucast b2) OR ucast b1) OR ucast b0, off + 8) }"
    by (simp add: readUint64_def eval_nat_numeral add.assoc)
  show ?thesis
    by (simp only: unroll byte_at_drop [OF d0] byte_at_drop [OF d1] byte_at_drop [OF d2]
        byte_at_drop [OF d3] byte_at_drop [OF d4] byte_at_drop [OF d5] byte_at_drop [OF d6]
        byte_at_drop [OF d7] Option.bind.simps ucast_byte64 or_zero_left drop_bit_0 id_apply join_bytes64)
qed

lemma length_writeUint32: "length (writeUint32 v) = 4"
  by (simp add: writeUint32_def)

lemma length_writeUint64: "length (writeUint64 v) = 8"
  by (simp add: writeUint64_def)

lemma readUint32_step:
  "drop off data = writeUint32 v @ rest \<Longrightarrow>
     readUint32 data off = Some (v, off + 4) \<and> drop (off + 4) data = rest"
  using readUint32_drop [of off data v rest] drop_past [of off data "writeUint32 v" rest]
  by (simp add: length_writeUint32)

lemma readFloat_step:
  "drop off data = writeFloat v @ rest \<Longrightarrow>
     readFloat data off = Some (v, off + 4) \<and> drop (off + 4) data = rest"
  using readUint32_step [of off data v rest] by (simp add: readFloat_def writeFloat_def)

lemma readUint64_step:
  "drop off data = writeUint64 v @ rest \<Longrightarrow>
     readUint64 data off = Some (v, off + 8) \<and> drop (off + 8) data = rest"
  using readUint64_drop [of off data v rest] drop_past [of off data "writeUint64 v" rest]
  by (simp add: length_writeUint64)

lemma readByte_step:
  "drop off data = [b] @ rest \<Longrightarrow>
     readByte data off = Some (b, off + 1) \<and> drop (off + 1) data = rest"
  using readByte_drop [of off data b rest] drop_past [of off data "[b]" rest]
  by simp

lemma readBool_step:
  "drop off data = writeBool b @ rest \<Longrightarrow>
     readByte data off = Some (if b then 1 else 0, off + 1) \<and> drop (off + 1) data = rest"
  using readByte_step [of off data "if b then 1 else 0" rest] by (simp add: writeBool_def)

lemma readDevice_written:
  assumes "drop off data = writeDevice d @ rest"
  shows "readDevice blank data off = Some (received_as blank d, off + 53)
       \<and> drop (off + 53) data = rest"
proof -
  let ?o1 = "off + 4" let ?o2 = "?o1 + 1" let ?o3 = "?o2 + 1" let ?o4 = "?o3 + 1"
  let ?o5 = "?o4 + 4" let ?o6 = "?o5 + 4" let ?o7 = "?o6 + 4" let ?o8 = "?o7 + 4"
  let ?o9 = "?o8 + 4" let ?o10 = "?o9 + 4" let ?o11 = "?o10 + 4" let ?o12 = "?o11 + 8"
  let ?o13 = "?o12 + 1" let ?o14 = "?o13 + 1" let ?o15 = "?o14 + 4" let ?o16 = "?o15 + 4"
  from assms have s0: "drop off data = writeUint32 (deviceId d) @
     ([ucast (deviceType d)] @ [ucast (trackingState d)] @ writeBool (isConnected d) @
      writeFloat (v3_x (position (pose d))) @ writeFloat (v3_y (position (pose d))) @
      writeFloat (v3_z (position (pose d))) @ writeFloat (q_w (rotation (pose d))) @
      writeFloat (q_x (rotation (pose d))) @ writeFloat (q_y (rotation (pose d))) @
      writeFloat (q_z (rotation (pose d))) @ writeUint64 (timestamp (pose d)) @
      writeBool (trigger (buttons d)) @ writeBool (grip (buttons d)) @
      writeFloat (triggerValue (buttons d)) @ writeFloat (gripValue (buttons d)) @ rest)"
    by (simp add: writeDevice_def)
  note r1 = readUint32_step [OF s0]
  note r2 = readByte_step [OF conjunct2 [OF r1]]
  note r3 = readByte_step [OF conjunct2 [OF r2]]
  note r4 = readBool_step [OF conjunct2 [OF r3]]
  note r5 = readFloat_step [OF conjunct2 [OF r4]]
  note r6 = readFloat_step [OF conjunct2 [OF r5]]
  note r7 = readFloat_step [OF conjunct2 [OF r6]]
  note r8 = readFloat_step [OF conjunct2 [OF r7]]
  note r9 = readFloat_step [OF conjunct2 [OF r8]]
  note r10 = readFloat_step [OF conjunct2 [OF r9]]
  note r11 = readFloat_step [OF conjunct2 [OF r10]]
  note r12 = readUint64_step [OF conjunct2 [OF r11]]
  note r13 = readBool_step [OF conjunct2 [OF r12]]
  note r14 = readBool_step [OF conjunct2 [OF r13]]
  note r15 = readFloat_step [OF conjunct2 [OF r14]]
  note r16 = readFloat_step [OF conjunct2 [OF r15]]
  have run: "readDevice blank data off =
      Some (blank\<lparr>
             deviceId := deviceId d,
             deviceType := ucast (ucast (deviceType d) :: u8),
             trackingState := ucast (ucast (trackingState d) :: u8),
             isConnected := ((if isConnected d then 1 else 0 :: u8) \<noteq> 0),
             pose := \<lparr>position = \<lparr>v3_x = v3_x (position (pose d)), v3_y = v3_y (position (pose d)),
                                   v3_z = v3_z (position (pose d))\<rparr>,
                      rotation = \<lparr>q_w = q_w (rotation (pose d)), q_x = q_x (rotation (pose d)),
                                   q_y = q_y (rotation (pose d)), q_z = q_z (rotation (pose d))\<rparr>,
                      timestamp = timestamp (pose d)\<rparr>,
             buttons := (buttons blank)\<lparr>trigger := ((if trigger (buttons d) then 1 else 0 :: u8) \<noteq> 0),
                                        grip := ((if grip (buttons d) then 1 else 0 :: u8) \<noteq> 0),
                                        triggerValue := triggerValue (buttons d),
                                        gripValue := gripValue (buttons d)\<rparr>\<rparr>, ?o16)"
    by (simp only: readDevice_def conjunct1 [OF r1] conjunct1 [OF r2] conjunct1 [OF r3]
        conjunct1 [OF r4] conjunct1 [OF r5] conjunct1 [OF r6] conjunct1 [OF r7]
        conjunct1 [OF r8] conjunct1 [OF r9] conjunct1 [OF r10] conjunct1 [OF r11]
        conjunct1 [OF r12] conjunct1 [OF r13] conjunct1 [OF r14] conjunct1 [OF r15]
        conjunct1 [OF r16] Option.bind.simps prod.case)
  have img: "blank\<lparr>
             deviceId := deviceId d,
             deviceType := ucast (ucast (deviceType d) :: u8),
             trackingState := ucast (ucast (trackingState d) :: u8),
             isConnected := ((if isConnected d then 1 else 0 :: u8) \<noteq> 0),
             pose := \<lparr>position = \<lparr>v3_x = v3_x (position (pose d)), v3_y = v3_y (position (pose d)),
                                   v3_z = v3_z (position (pose d))\<rparr>,
                      rotation = \<lparr>q_w = q_w (rotation (pose d)), q_x = q_x (rotation (pose d)),
                                   q_y = q_y (rotation (pose d)), q_z = q_z (rotation (pose d))\<rparr>,
                      timestamp = timestamp (pose d)\<rparr>,
             buttons := (buttons blank)\<lparr>trigger := ((if trigger (buttons d) then 1 else 0 :: u8) \<noteq> 0),
                                        grip := ((if grip (buttons d) then 1 else 0 :: u8) \<noteq> 0),
                                        triggerValue := triggerValue (buttons d),
                                        gripValue := gripValue (buttons d)\<rparr>\<rparr> = received_as blank d"
    by (simp add: received_as_def)
  have off: "?o16 = off + 53" by simp
  show ?thesis
    using run conjunct2 [OF r16] unfolding img off by simp
qed

lemma length_writeDevice: "length (writeDevice d) = 53"
  by (simp add: writeDevice_def writeFloat_def writeBool_def length_writeUint32 length_writeUint64)

lemma length_writeHeader: "length (writeHeader p) = 22"
  by (simp add: writeHeader_def writeUint16_def length_writeUint32 length_writeUint64)

lemma readDevices_written:
  "drop off data = concat (map writeDevice ds) \<Longrightarrow> length ds \<le> n \<Longrightarrow>
     readDevices blank data n off = Some (map (received_as blank) ds)"
proof (induction ds arbitrary: n off)
  case Nil
  then have "\<not> off < length data" by simp
  then show ?case by (cases n) simp_all
next
  case (Cons d ds)
  from Cons.prems(2) obtain m where n: "n = Suc m" and m: "length ds \<le> m"
    by (cases n) auto
  from Cons.prems(1) have here: "drop off data = writeDevice d @ concat (map writeDevice ds)"
    by simp
  have "drop off data \<noteq> []"
    using here length_writeDevice [of d] by auto
  then have inside: "off < length data" by simp
  note one = readDevice_written [OF here, of blank]
  have rest: "readDevices blank data m (off + 53) = Some (map (received_as blank) ds)"
    using Cons.IH [OF conjunct2 [OF one] m] .
  show ?case
    by (simp add: n inside conjunct1 [OF one] rest)
qed

lemma deserializeBinary_header:
  assumes "data = writeHeader p @ rest"
  shows "deserializeBinary blank data q = do {
           devs \<leftarrow> readDevices blank data (unat (of_nat (length (m_devices p)) :: u32)) 22;
           Some (True, q\<lparr>m_sequenceNumber := m_sequenceNumber p, m_timestamp := m_timestamp p,
                         m_devices := devs\<rparr>)
         }"
proof -
  have long: "\<not> length data < 22"
    using assms length_writeHeader [of p] by simp
  have s0: "drop 0 data = writeUint32 magic @ (writeUint16 1 @ writeUint32 (m_sequenceNumber p) @
      writeUint64 (m_timestamp p) @ writeUint32 (of_nat (length (m_devices p))) @ rest)"
    using assms by (simp add: writeHeader_def)
  note r1 = readUint32_step [OF s0]
  have s1: "drop (0 + 4 + 2) data = writeUint32 (m_sequenceNumber p) @
      (writeUint64 (m_timestamp p) @ writeUint32 (of_nat (length (m_devices p))) @ rest)"
    using drop_past [OF conjunct2 [OF r1]] by (simp add: writeUint16_def)
  note r2 = readUint32_step [OF s1]
  note r3 = readUint64_step [OF conjunct2 [OF r2]]
  note r4 = readUint32_step [OF conjunct2 [OF r3]]
  have "deserializeBinary blank data q = do {
           devs \<leftarrow> readDevices blank data (unat (of_nat (length (m_devices p)) :: u32))
                     (0 + 4 + 2 + 4 + 8 + 4);
           Some (True, q\<lparr>m_sequenceNumber := m_sequenceNumber p, m_timestamp := m_timestamp p,
                         m_devices := devs\<rparr>)
         }"
    by (simp only: deserializeBinary_def long if_False conjunct1 [OF r1] conjunct1 [OF r2]
        conjunct1 [OF r3] conjunct1 [OF r4] Option.bind.simps prod.case simp_thms)
  then show ?thesis by simp
qed


section \<open>Binary round trip\<close>

lemma same_wire_received:
  "enums_fit_byte d \<Longrightarrow> same_wire_fields d (received_as blank d)"
proof -
  assume fit: "enums_fit_byte d"
  have there_and_back: "w < 256 \<Longrightarrow> ucast (ucast w :: u8) = w" for w :: u32
  proof -
    assume "w < 256"
    then have "take_bit 8 w = w"
      using less_mask_eq [of w 8] by (simp add: take_bit_eq_mask)
    moreover have "ucast (ucast w :: u8) = take_bit 8 w"
      by (rule bit_word_eqI) (auto simp add: bit_simps)
    ultimately show ?thesis by simp
  qed
  show ?thesis
    using fit by (simp add: same_wire_fields_def received_as_def enums_fit_byte_def there_and_back)
qed

lemma serializeBinary_nonempty: "serializeBinary p \<noteq> []"
  using length_writeHeader [of p] by (auto simp add: serializeBinary_def)

lemma deserializeBinary_serialized:
  "deserializeBinary blank (serializeBinary p) q = do {
     devs \<leftarrow> readDevices blank (serializeBinary p)
               (unat (of_nat (length (m_devices p)) :: u32)) 22;
     Some (True, q\<lparr>m_sequenceNumber := m_sequenceNumber p, m_timestamp := m_timestamp p,
                   m_devices := devs\<rparr>) }"
  by (rule deserializeBinary_header) (simp add: serializeBinary_def)

lemma drop_header: "drop 22 (serializeBinary p) = concat (map writeDevice (m_devices p))"
  by (simp add: serializeBinary_def length_writeHeader)

text \<open>
  Claim C1, as the code has it. A packet in Binary format that holds fewer than \<open>2 ^ 32\<close>
  device records, each with a device type and a tracking state that one byte can carry,
  survives serialisation followed by deserialisation: the call returns true, and the
  receiving packet carries the original sequence number and timestamp and, record by
  record, the original device id, device type, tracking state, connected flag, position,
  rotation, pose timestamp and trigger and grip flags and values, bit for bit.
\<close>

theorem binary_round_trip:
  assumes "m_format p = Binary" and "m_format q = Binary"
    and "length (m_devices p) < 2 ^ 32"
    and "\<forall>d \<in> set (m_devices p). enums_fit_byte d"
  shows "\<exists>devs. deserialize blank (serialize fmt p) q =
           Some (True, q\<lparr>m_sequenceNumber := m_sequenceNumber p, m_timestamp := m_timestamp p,
                         m_devices := devs\<rparr>)
         \<and> list_all2 same_wire_fields (m_devices p) devs"
proof -
  have count: "unat (of_nat (length (m_devices p)) :: u32) = length (m_devices p)"
    using assms(3) by (simp add: unat_of_nat)
  have devs: "readDevices blank (serializeBinary p) (length (m_devices p)) 22 =
      Some (map (received_as blank) (m_devices p))"
    by (rule readDevices_written [OF drop_header]) simp
  have "deserialize blank (serialize fmt p) q =
      Some (True, q\<lparr>m_sequenceNumber := m_sequenceNumber p, m_timestamp := m_timestamp p,
                    m_devices := map (received_as blank) (m_devices p)\<rparr>)"
    using assms(1,2)
    by (simp add: deserialize_def serialize_def serializeBinary_nonempty
        deserializeBinary_serialized count devs)
  moreover have "list_all2 same_wire_fields (m_devices p) (map (received_as blank) (m_devices p))"
    using assms(4) by (simp add: list_all2_conv_all_nth same_wire_received)
  ultimately show ?thesis by blast
qed

text \<open>The packet of \<^verbatim>\<open>testDeserialization\<close> meets the hypotheses, and the theorem applies to it.\<close>

theorem binary_round_trip_witness:
  "m_format test_packet = Binary \<and> m_format (empty_packet Binary) = Binary
   \<and> length (m_devices test_packet) < 2 ^ 32
   \<and> m_devices test_packet = [test_device] \<and> enums_fit_byte test_device
   \<and> (\<exists>devs. deserialize zero_device (serialize print_zero test_packet) (empty_packet Binary) =
           Some (True, (empty_packet Binary)\<lparr>m_sequenceNumber := 42, m_timestamp := 123456789,
                         m_devices := devs\<rparr>)
         \<and> list_all2 same_wire_fields [test_device] devs)"
proof -
  have a: "m_format test_packet = Binary" by (simp add: test_packet_def)
  have b: "m_format (empty_packet Binary) = Binary" by (simp add: empty_packet_def)
  have c: "length (m_devices test_packet) < 2 ^ 32" by (simp add: test_packet_def)
  have d: "\<forall>d \<in> set (m_devices test_packet). enums_fit_byte d"
    by (simp add: test_packet_def test_device_def zero_device_def enums_fit_byte_def
        RightController_def NotTracked_def)
  have e: "enums_fit_byte test_device"
    using d by (simp add: test_packet_def)
  show ?thesis
    using a b c e binary_round_trip [OF a b c d, of zero_device print_zero]
    by (simp add: test_packet_def)
qed

text \<open>
  Without the two bounds the round trip fails. A device type of 256 is written as the
  byte 0 and comes back as 0; and \<open>2 ^ 32\<close> devices are announced as a count of 0, so none
  is read back.
\<close>

theorem binary_round_trip_counterexample:
  "deviceType (hd (m_devices wide_type_packet)) = 256
   \<and> deserialize zero_device (serialize print_zero wide_type_packet) (empty_packet Binary) =
       Some (True, (empty_packet Binary)\<lparr>m_devices := [zero_device]\<rparr>)
   \<and> deviceType zero_device = 0
   \<and> length (m_devices overlong_packet) = 2 ^ 32
   \<and> deserialize zero_device (serialize print_zero overlong_packet) (empty_packet Binary) =
       Some (True, empty_packet Binary)"
proof -
  have wide: "readDevices zero_device (serializeBinary wide_type_packet) 1 22 =
      Some (map (received_as zero_device) (m_devices wide_type_packet))"
    by (rule readDevices_written [OF drop_header]) (simp add: wide_type_packet_def)
  have narrowed: "(ucast (ucast (256 :: u32) :: u8) :: u32) = 0"
    by simp
  have image: "received_as zero_device (zero_device\<lparr>deviceType := 256\<rparr>) = zero_device"
    by (simp add: received_as_def zero_device_def DeviceType_Unknown_def NotTracked_def narrowed)
  have one: "deserialize zero_device (serialize print_zero wide_type_packet) (empty_packet Binary) =
       Some (True, (empty_packet Binary)\<lparr>m_devices := [zero_device]\<rparr>)"
    using wide
    by (simp add: deserialize_def serialize_def serializeBinary_nonempty
        deserializeBinary_serialized wide_type_packet_def empty_packet_def image)
  have count: "unat (of_nat (length (m_devices overlong_packet)) :: u32) = 0"
    by (simp add: overlong_packet_def)
  have fields: "m_format overlong_packet = Binary" "m_sequenceNumber overlong_packet = 0"
      "m_timestamp overlong_packet = 0"
    by (simp_all add: overlong_packet_def)
  have two: "deserialize zero_device (serialize print_zero overlong_packet) (empty_packet Binary) =
       Some (True, empty_packet Binary)"
    by (simp add: deserialize_def serialize_def serializeBinary_nonempty
        deserializeBinary_serialized count fields empty_packet_def)
  show ?thesis
    using one two
    by (simp add: wide_type_packet_def overlong_packet_def zero_device_def DeviceType_Unknown_def)
qed


section \<open>Refused buffers\<close>

lemma top_byte32:
  "(ucast (drop_bit 24 (push_bit 24 (ucast b0) OR push_bit 16 (ucast b1) OR
      push_bit 8 (ucast b2) OR (ucast b3 :: u32))) :: u8) = (b0 :: u8)"
  "(ucast (drop_bit 16 (push_bit 24 (ucast b0) OR push_bit 16 (ucast b1) OR
      push_bit 8 (ucast b2) OR (ucast b3 :: u32))) :: u8) = (b1 :: u8)"
  "(ucast (drop_bit 8 (push_bit 24 (ucast b0) OR push_bit 16 (ucast b1) OR
      push_bit 8 (ucast b2) OR (ucast b3 :: u32))) :: u8) = (b2 :: u8)"
  "(ucast (push_bit 24 (ucast b0) OR push_bit 16 (ucast b1) OR
      push_bit 8 (ucast b2) OR (ucast b3 :: u32)) :: u8) = (b3 :: u8)"
  by (rule bit_word_eqI; auto simp add: bit_simps dest: bit_imp_le_length)+

lemma magic_bytes:
  assumes "push_bit 24 (ucast b0) OR push_bit 16 (ucast b1) OR push_bit 8 (ucast b2) OR
      (ucast b3 :: u32) = magic"
  shows "[b0, b1, b2, b3] = [0x41, 0x49, 0x4D, 0x4C :: u8]"
proof -
  have "b0 = ucast (drop_bit 24 magic)" "b1 = ucast (drop_bit 16 magic)"
    "b2 = ucast (drop_bit 8 magic)" "b3 = ucast magic"
    unfolding assms [symmetric] by (simp_all only: top_byte32)
  then show ?thesis by (simp add: magic_def)
qed

lemma take4:
  "4 \<le> length data \<Longrightarrow> take 4 data = [data ! 0, data ! 1, data ! 2, data ! 3]"
  by (simp add: list_eq_iff_nth_eq nth_Cons' eval_nat_numeral less_Suc_eq)

text \<open>
  Claim C2, as the code has it. A buffer shorter than the 22-byte header, and a buffer
  whose first four bytes are not the magic number \<^verbatim>\<open>0x41494D4C\<close>, is refused: the call
  returns false, reads no byte outside the buffer and leaves the packet as it was.
\<close>

theorem deserializeBinary_rejects:
  assumes "length data < 22 \<or> take 4 data \<noteq> [0x41, 0x49, 0x4D, 0x4C]"
  shows "deserializeBinary blank data q = Some (False, q)"
proof (cases "length data < 22")
  case True
  then show ?thesis by (simp add: deserializeBinary_def)
next
  case False
  with assms have other: "take 4 data \<noteq> [0x41, 0x49, 0x4D, 0x4C]" by simp
  from False have len: "4 \<le> length data" by simp
  define w :: u32 where "w = push_bit 24 (ucast (data ! 0)) OR push_bit 16 (ucast (data ! 1)) OR
      push_bit 8 (ucast (data ! 2)) OR ucast (data ! 3)"
  have b0: "byte_at data 0 = Some (data ! 0)"
    using len by (simp add: byte_at_def del: length_greater_0_conv)
  have b1: "byte_at data (0 + 1) = Some (data ! 1)"
    using len by (simp add: byte_at_def)
  have b2: "byte_at data (0 + 2) = Some (data ! 2)"
    using len by (simp add: byte_at_def numeral_2_eq_2)
  have b3: "byte_at data (0 + 3) = Some (data ! 3)"
    using len by (simp add: byte_at_def)
  have first: "readUint32 data 0 = Some (w, 0 + 4)"
    unfolding w_def by (simp only: readUint32_def b0 b1 b2 b3 Option.bind.simps)
  have "w = magic \<Longrightarrow> take 4 data = [0x41, 0x49, 0x4D, 0x4C]"
    unfolding w_def take4 [OF len] by (rule magic_bytes)
  with other have differs: "w \<noteq> magic" by blast
  have "deserializeBinary blank data q =
      (if w \<noteq> magic then Some (False, q) else
        do {
          (sq, o3) \<leftarrow> readUint32 data (0 + 4 + 2);
          (ts, o4) \<leftarrow> readUint64 data o3;
          (deviceCount, o5) \<leftarrow> readUint32 data o4;
          devs \<leftarrow> readDevices blank data (unat deviceCount) o5;
          Some (True, q\<lparr>m_sequenceNumber := sq, m_timestamp := ts, m_devices := devs\<rparr>)
        })"
    by (simp only: deserializeBinary_def False if_False first Option.bind.simps prod.case)
  then show ?thesis
    by (simp only: differs if_True simp_thms)
qed

text \<open>A 22-byte buffer whose fourth byte is off by one.\<close>

theorem deserializeBinary_rejects_witness:
  "(length wrong_magic_buffer < 22 \<or> take 4 wrong_magic_buffer \<noteq> [0x41, 0x49, 0x4D, 0x4C])
   \<and> deserializeBinary zero_device wrong_magic_buffer test_packet = Some (False, test_packet)"
proof -
  have h: "length wrong_magic_buffer < 22 \<or> take 4 wrong_magic_buffer \<noteq> [0x41, 0x49, 0x4D, 0x4C]"
    by (simp add: wrong_magic_buffer_def)
  show ?thesis
    using h deserializeBinary_rejects [OF h, of zero_device test_packet] by simp
qed

lemma test_header_bytes:
  "writeHeader test_packet =
     [0x41, 0x49, 0x4D, 0x4C, 0, 1, 0, 0, 0, 42, 0, 0, 0, 0, 0x07, 0x5B, 0xCD, 0x15, 0, 0, 0, 1]"
  by (simp add: writeHeader_def test_packet_def writeUint32_def writeUint16_def
      writeUint64_bytes magic_def)

text \<open>
  Truncation alone is not refused. The header of the test packet announces one device;
  sent without the device record it is 22 bytes long, and the call returns true with no
  device.
\<close>

theorem deserializeBinary_truncated_counterexample:
  "length (writeHeader test_packet) = 22
   \<and> take 4 (writeHeader test_packet) = [0x41, 0x49, 0x4D, 0x4C]
   \<and> readUint32 (writeHeader test_packet) 18 = Some (1, 22)
   \<and> deserializeBinary zero_device (writeHeader test_packet) (empty_packet Binary) =
       Some (True, (empty_packet Binary)\<lparr>m_sequenceNumber := 42, m_timestamp := 123456789\<rparr>)"
proof -
  have count: "readUint32 (writeHeader test_packet) 18 = Some (1, 22)"
    by (simp add: test_header_bytes readUint32_def byte_at_def)
  have run: "deserializeBinary zero_device (writeHeader test_packet) (empty_packet Binary) =
       Some (True, (empty_packet Binary)\<lparr>m_sequenceNumber := 42, m_timestamp := 123456789\<rparr>)"
    using deserializeBinary_header [of "writeHeader test_packet" test_packet "[]" zero_device
        "empty_packet Binary"]
    by (simp add: length_writeHeader test_packet_def empty_packet_def)
  show ?thesis
    using count run by (simp add: length_writeHeader) (simp add: test_header_bytes)
qed

text \<open>
  The loop tests \<^verbatim>\<open>offset < data.size()\<close> once per record, before reading its 53 bytes.
  One byte after that header is enough to pass the test, and the read of the device id
  then leaves the buffer.
\<close>

lemma deserializeBinary_partial_record:
  "deserializeBinary zero_device (writeHeader test_packet @ [0]) (empty_packet Binary) = None"
proof -
  have "readDevices zero_device (writeHeader test_packet @ [0]) 1 22 = None"
    by (simp add: length_writeHeader readDevice_def readUint32_def byte_at_def nth_append)
  then show ?thesis
    using deserializeBinary_header [of "writeHeader test_packet @ [0]" test_packet "[0]"
        zero_device "empty_packet Binary"]
    by (simp add: test_packet_def)
qed

text \<open>
  A buffer that ends on a record boundary is accepted with the records that are there.
\<close>

lemma deserializeBinary_record_boundary:
  assumes "k \<le> length (m_devices p)" and "length (m_devices p) < 2 ^ 32"
  shows "deserializeBinary blank
           (writeHeader p @ concat (map writeDevice (take k (m_devices p)))) q =
         Some (True, q\<lparr>m_sequenceNumber := m_sequenceNumber p, m_timestamp := m_timestamp p,
                       m_devices := map (received_as blank) (take k (m_devices p))\<rparr>)"
proof -
  let ?data = "writeHeader p @ concat (map writeDevice (take k (m_devices p)))"
  have count: "unat (of_nat (length (m_devices p)) :: u32) = length (m_devices p)"
    using assms(2) by (simp add: unat_of_nat)
  have "drop 22 ?data = concat (map writeDevice (take k (m_devices p)))"
    by (simp add: length_writeHeader)
  then have "readDevices blank ?data (length (m_devices p)) 22 =
      Some (map (received_as blank) (take k (m_devices p)))"
    by (rule readDevices_written) (use assms(1) in simp)
  then show ?thesis
    using deserializeBinary_header [of ?data p _ blank q] by (simp add: count)
qed

section \<open>JSON format\<close>

text \<open>
  Claim C10, as the code has it. On a packet whose format is JSON, \<open>deserialize\<close> returns
  false for every buffer. A non-empty buffer also clears the device list; the empty
  buffer is turned away before the format is looked at and leaves the packet untouched.
  The JSON serialiser never produces the empty buffer, so deserialising its output
  returns false and clears the device list.
\<close>

theorem json_deserialize_fails:
  assumes "m_format q = JSON" and "m_format p = JSON"
  shows "deserialize blank data q = Some (False, if data = [] then q else q\<lparr>m_devices := []\<rparr>)
       \<and> serialize fmt p \<noteq> []
       \<and> deserialize blank (serialize fmt p) q = Some (False, q\<lparr>m_devices := []\<rparr>)"
proof -
  have any: "deserialize blank d q = Some (False, if d = [] then q else q\<lparr>m_devices := []\<rparr>)"
    for d
    using assms(1) by (simp add: deserialize_def deserializeJSON_def)
  have out: "serialize fmt p \<noteq> []"
    using assms(2) by (simp add: serialize_def serializeJSON_def)
  show ?thesis
    using any [of data] any [of "serialize fmt p"] out by simp
qed

text \<open>A packet in JSON format, the two bytes \<^verbatim>\<open>{}\<close>, and the packet's own JSON output.\<close>

theorem json_deserialize_fails_witness:
  "m_format json_packet = JSON
   \<and> deserialize zero_device [0x7B, 0x7D] json_packet = Some (False, json_packet\<lparr>m_devices := []\<rparr>)
   \<and> serialize print_zero json_packet \<noteq> []
   \<and> deserialize zero_device (serialize print_zero json_packet) json_packet =
       Some (False, json_packet\<lparr>m_devices := []\<rparr>)"
proof -
  have f: "m_format json_packet = JSON" by (simp add: json_packet_def)
  show ?thesis
    using f json_deserialize_fails [OF f f, of zero_device "[0x7B, 0x7D]" print_zero] by simp
qed

text \<open>The empty buffer: false is returned, and the one device is still there.\<close>

theorem json_deserialize_counterexample:
  "m_format json_packet = JSON \<and> m_devices json_packet = [zero_device]
   \<and> deserialize zero_device [] json_packet = Some (False, json_packet)"
  by (simp add: deserialize_def json_packet_def)


section \<open>Streaming scheduler: sequence numbers, deadlines, send failures\<close>

lemma sendFrame_seq:
  "sendFrame env now s = (ok, evs, s') \<Longrightarrow>
     frames_of (map Event evs) = (if vrDevice s \<and> networkManager s \<and> update_ok env
        then [\<lparr>m_devices = devices env, m_timestamp = of_int (now sdiv 1000),
               m_sequenceNumber = sequenceNumber s, m_format = Binary\<rparr>] else [])
     \<and> sequenceNumber s' = sequenceNumber s + of_nat (length (frames_of (map Event evs)))"
  by (auto simp add: sendFrame_def Let_def split: if_splits)

lemma frames_of_append: "frames_of (xs @ ys) = frames_of xs @ frames_of ys"
  by (induction xs rule: frames_of.induct) simp_all

lemma tick_seq:
  assumes "streaming_tick period e st = (acts, st')"
  shows "map m_sequenceNumber (frames_of acts) =
           map (\<lambda>k. sequenceNumber (impl st) + of_nat k) [0..<length (frames_of acts)]
       \<and> sequenceNumber (impl st') =
           sequenceNumber (impl st) + of_nat (length (frames_of acts))"
proof -
  obtain ok evs s' where sf: "sendFrame (frame e) (clock_now st) (impl st) = (ok, evs, s')"
    by (metis prod_cases3)
  have acts: "frames_of acts = frames_of (map Event evs)" and s': "impl st' = s'"
    using assms sf by (auto simp add: streaming_tick_def Let_def frames_of_append split: if_splits)
  show ?thesis
    using sendFrame_seq [OF sf] by (auto simp add: acts s')
qed

lemma map_upt_shift: "map (\<lambda>k. f (n + k)) [0..<m] = map f [n..<n + m]"
  by (induction m) simp_all

lemma loop_seq:
  "streamingLoop period envs st = (acts, st') \<Longrightarrow>
     map m_sequenceNumber (frames_of acts) =
       map (\<lambda>k. sequenceNumber (impl st) + of_nat k) [0..<length (frames_of acts)]"
proof (induction envs arbitrary: st acts st')
  case Nil
  then show ?case by simp
next
  case (Cons e es)
  let ?s = "if stop_requested e \<and> isStreaming (impl st)
            then (impl st)\<lparr>shouldStop := True, isStreaming := False\<rparr> else impl st"
  have sq: "sequenceNumber ?s = sequenceNumber (impl st)" by simp
  show ?case
  proof (cases "shouldStop ?s")
    case True
    with Cons.prems have "acts = []" by (simp add: Let_def)
    then show ?thesis by simp
  next
    case False
    obtain a1 st1 where t: "streaming_tick period e (st\<lparr>impl := ?s\<rparr>) = (a1, st1)"
      by fastforce
    obtain a2 st2 where l: "streamingLoop period es st1 = (a2, st2)"
      by fastforce
    from Cons.prems False t l have acts: "acts = a1 @ a2"
      by (simp add: Let_def)
    note one = tick_seq [OF t]
    note rest = Cons.IH [OF l]
    let ?n1 = "length (frames_of a1)" and ?n2 = "length (frames_of a2)"
    have "map m_sequenceNumber (frames_of acts) =
        map (\<lambda>k. sequenceNumber (impl st) + of_nat k) [0..<?n1] @
        map (\<lambda>k. sequenceNumber (impl st) + of_nat ?n1 + of_nat k) [0..<?n2]"
      using one rest sq by (simp add: acts frames_of_append)
    also have "map (\<lambda>k. sequenceNumber (impl st) + of_nat ?n1 + of_nat k) [0..<?n2] =
        map (\<lambda>k. sequenceNumber (impl st) + of_nat k) [?n1..<?n1 + ?n2]"
      using map_upt_shift [of "\<lambda>k. sequenceNumber (impl st) + of_nat k" ?n1 ?n2]
      by (simp add: add.assoc)
    also have "map (\<lambda>k. sequenceNumber (impl st) + of_nat k) [0..<?n1] @
        map (\<lambda>k. sequenceNumber (impl st) + of_nat k) [?n1..<?n1 + ?n2] =
        map (\<lambda>k. sequenceNumber (impl st) + of_nat k) [0..<?n1 + ?n2]"
      by (simp only: upt_add_eq_append [OF le0] map_append)
    finally show ?thesis
      by (simp add: acts frames_of_append)
  qed
qed

text \<open>
  Claim C4. A successful \<open>startStreaming\<close> leaves the sequence counter at 0, and the
  packets the streaming thread hands to the network in that session carry the sequence
  numbers 0, 1, 2, ... in this order, counted in \<^verbatim>\<open>uint32_t\<close>, that is modulo \<open>2 ^ 32\<close>:
  each is one more than the one before. This holds whatever the device and the network
  do: a pass whose device update fails builds no packet and uses no number, and a packet
  whose send fails has used its number.
\<close>

theorem sequence_numbers_consecutive:
  assumes "startStreaming connected t0 s0 = (True, s)"
    and "streamingThreadFunc updateRate envs t1 s = Some (acts, st)"
  shows "sequenceNumber s = 0
       \<and> map m_sequenceNumber (frames_of acts) = map of_nat [0..<length (frames_of acts)]"
proof -
  from assms(1) have zero: "sequenceNumber s = 0"
    by (auto simp add: startStreaming_def split: if_splits)
  from assms(2) obtain period where
    "streamingLoop period envs \<lparr>clock_now = t1, nextFrameTime = t1, impl = s\<rparr> = (acts, st)"
    by (auto simp add: streamingThreadFunc_def split: option.splits)
  from loop_seq [OF this] zero show ?thesis by simp
qed

text \<open>
  A session of three passes at 90 Hz, the second with a failing send: the packets are
  numbered 0, 1, 2.
\<close>

theorem sequence_numbers_consecutive_witness:
  "startStreaming True 0 ready_impl = (True, impl fresh_scheduler)
   \<and> streamingThreadFunc 90 [good_tick, failing_tick, good_tick] 0 (impl fresh_scheduler) =
       Some (streamingLoop 11111000 [good_tick, failing_tick, good_tick] fresh_scheduler)
   \<and> sequenceNumber (impl fresh_scheduler) = 0
   \<and> map m_sequenceNumber
        (frames_of (fst (streamingLoop 11111000 [good_tick, failing_tick, good_tick]
           fresh_scheduler))) = [0, 1, 2]"
proof -
  define run where "run = streamingLoop 11111000 [good_tick, failing_tick, good_tick] fresh_scheduler"
  have a: "startStreaming True 0 ready_impl = (True, impl fresh_scheduler)"
    by (simp add: fresh_scheduler_def startStreaming_def ready_impl_def)
  have b: "streamingThreadFunc 90 [good_tick, failing_tick, good_tick] 0 (impl fresh_scheduler) =
       Some (fst run, snd run)"
    by (simp add: streamingThreadFunc_def frameDuration_def fresh_scheduler_def run_def)
  have n: "length (frames_of (fst run)) = 3"
    by (simp add: run_def fresh_scheduler_def startStreaming_def ready_impl_def good_tick_def
        failing_tick_def good_frame_def failing_frame_def streaming_tick_def sendFrame_def
        Let_def frames_of_append)
  have "startStreaming True 0 ready_impl = (True, impl fresh_scheduler)
   \<and> streamingThreadFunc 90 [good_tick, failing_tick, good_tick] 0 (impl fresh_scheduler) =
       Some run
   \<and> sequenceNumber (impl fresh_scheduler) = 0
   \<and> map m_sequenceNumber (frames_of (fst run)) = [0, 1, 2]"
    using a b sequence_numbers_consecutive [OF a b]
    by (simp add: n upt_rec)
  then show ?thesis
    unfolding run_def .
qed

lemma sleeps_of_events: "sleeps_of (map Event evs) = []"
  by (induction evs) simp_all

lemma sleeps_of_append: "sleeps_of (xs @ ys) = sleeps_of xs @ sleeps_of ys"
  by (induction xs rule: sleeps_of.induct) simp_all

text \<open>
  Claim C7, as the code has it. In a pass whose \<open>sendFrame\<close> succeeds, the deadline moves
  on by exactly one period; if the clock then read is before it, the thread sleeps until
  it, and otherwise the deadline is set to that clock reading, with no sleep and no
  catch-up. Either way the deadline ends the pass no earlier than the reading. In a pass
  whose \<open>sendFrame\<close> fails, the thread sleeps 100 ms and the deadline stays where it was.
\<close>

theorem deadline_after_tick:
  "nextFrameTime (snd (streaming_tick period e st)) =
     (if fst (sendFrame (frame e) (clock_now st) (impl st))
      then max (nextFrameTime st + period) (clock_now st + int (work_time e))
      else nextFrameTime st)
   \<and> sleeps_of (fst (streaming_tick period e st)) =
     (if fst (sendFrame (frame e) (clock_now st) (impl st))
      then (if clock_now st + int (work_time e) < nextFrameTime st + period
            then [SleepUntil (nextFrameTime st + period)] else [])
      else [SleepFor 100000000])
   \<and> (if fst (sendFrame (frame e) (clock_now st) (impl st))
      then clock_now st + int (work_time e) \<le> nextFrameTime (snd (streaming_tick period e st))
      else True)"
proof -
  obtain ok evs s' where sf: "sendFrame (frame e) (clock_now st) (impl st) = (ok, evs, s')"
    by (metis prod_cases3)
  show ?thesis
    by (simp add: streaming_tick_def sf Let_def sleeps_of_append sleeps_of_events max_def)
qed

text \<open>
  A first pass at 90 Hz that takes 1 ms: the deadline moves to 11.111 ms and the thread
  sleeps until then.
\<close>

theorem deadline_after_tick_witness:
  "fst (sendFrame (frame good_tick) (clock_now fresh_scheduler) (impl fresh_scheduler)) = True
   \<and> nextFrameTime (snd (streaming_tick 11111000 good_tick fresh_scheduler)) = 11111000
   \<and> sleeps_of (fst (streaming_tick 11111000 good_tick fresh_scheduler)) = [SleepUntil 11111000]"
proof -
  have sent: "fst (sendFrame (frame good_tick) (clock_now fresh_scheduler) (impl fresh_scheduler))"
    by (simp add: sendFrame_def good_tick_def good_frame_def fresh_scheduler_def
        startStreaming_def ready_impl_def Let_def)
  have times: "nextFrameTime fresh_scheduler = 0" "clock_now fresh_scheduler = 0"
      "work_time good_tick = 1000000"
    by (simp_all add: fresh_scheduler_def good_tick_def)
  show ?thesis
    using sent deadline_after_tick [of 11111000 good_tick fresh_scheduler]
    by (simp add: times)
qed

text \<open>
  A first pass whose send fails, with the deadline at the clock reading 0 on entry: the
  error is reported, the thread sleeps 100 ms, and the next pass begins at 100 ms with
  the deadline still at 0, in the past.
\<close>

theorem deadline_in_the_past_counterexample:
  "fst (streaming_tick 11111000 failing_tick fresh_scheduler) =
     [Event (NetSend \<lparr>m_devices = [test_device], m_timestamp = 0, m_sequenceNumber = 0,
                      m_format = Binary\<rparr>),
      Event (ErrorReported ''Failed to send packet: Send failed''),
      SleepFor 100000000]
   \<and> clock_now (snd (streaming_tick 11111000 failing_tick fresh_scheduler)) = 100000000
   \<and> nextFrameTime (snd (streaming_tick 11111000 failing_tick fresh_scheduler)) = 0"
  by (simp add: streaming_tick_def sendFrame_def fresh_scheduler_def failing_tick_def
      failing_frame_def startStreaming_def ready_impl_def Let_def)



section \<open>Handshake\<close>

lemma step_attempts: "attempts (handshake_step recv h) = attempts h + 1"
  by (simp add: handshake_step_def Let_def split: option.splits)

lemma step_sent:
  "handshake_sent (handshake_step recv h) \<longleftrightarrow> handshake_sent h \<or> brings_ready recv (attempts h)"
  by (simp add: handshake_step_def brings_ready_def Let_def split: option.splits)

lemma step_received:
  "handshake_received (handshake_step recv h) \<longleftrightarrow>
     handshake_received h \<or> brings_request recv (attempts h)"
  by (simp add: handshake_step_def brings_request_def Let_def split: option.splits)

lemma step_replied:
  "handshake_received h \<longrightarrow> MSG_READY @ '':'' @ NODE_ID \<in> set (to_peer h) \<Longrightarrow>
   handshake_received (handshake_step recv h) \<longrightarrow>
     MSG_READY @ '':'' @ NODE_ID \<in> set (to_peer (handshake_step recv h))"
  by (auto simp add: handshake_step_def Let_def split: option.splits if_splits)

lemma step_requested:
  "handshake_sent h \<longrightarrow> MSG_HANDSHAKE @ '':'' @ NODE_ID \<in> set (to_peer h) \<Longrightarrow>
   handshake_sent (handshake_step recv h) \<longrightarrow>
     MSG_HANDSHAKE @ '':'' @ NODE_ID \<in> set (to_peer (handshake_step recv h))"
  by (auto simp add: handshake_step_def Let_def split: option.splits if_splits)

lemma handshake_loop_continue:
  assumes "attempts h < 10 \<and> (\<not> handshake_sent h \<or> \<not> handshake_received h)"
  shows "handshake_loop recv h = handshake_loop recv (handshake_step recv h)"
  by (subst handshake_loop.simps) (simp only: assms if_True simp_thms)

lemma handshake_loop_stop:
  assumes "\<not> (attempts h < 10 \<and> (\<not> handshake_sent h \<or> \<not> handshake_received h))"
  shows "handshake_loop recv h = h"
  by (subst handshake_loop.simps) (simp only: assms if_False simp_thms)

lemma handshake_loop_bounds:
  "attempts h \<le> 10 \<Longrightarrow>
     attempts h \<le> attempts (handshake_loop recv h) \<and> attempts (handshake_loop recv h) \<le> 10
     \<and> (attempts (handshake_loop recv h) = 10
         \<or> handshake_sent (handshake_loop recv h) \<and> handshake_received (handshake_loop recv h))"
proof (induction recv h rule: handshake_loop.induct)
  case (1 recv h)
  show ?case
  proof (cases "attempts h < 10 \<and> (\<not> handshake_sent h \<or> \<not> handshake_received h)")
    case True
    then have "attempts (handshake_step recv h) \<le> 10" by (simp add: step_attempts)
    from "1.IH" [OF True this] show ?thesis
      unfolding handshake_loop_continue [OF True] by (simp add: step_attempts)
  next
    case False
    with "1.prems" show ?thesis
      unfolding handshake_loop_stop [OF False] by auto
  qed
qed

lemma handshake_loop_flags:
  "(handshake_sent (handshake_loop recv h) \<longleftrightarrow>
      handshake_sent h \<or>
      (\<exists>j. attempts h \<le> j \<and> j < attempts (handshake_loop recv h) \<and> brings_ready recv j))
   \<and> (handshake_received (handshake_loop recv h) \<longleftrightarrow>
      handshake_received h \<or>
      (\<exists>i. attempts h \<le> i \<and> i < attempts (handshake_loop recv h) \<and> brings_request recv i))"
proof (induction recv h rule: handshake_loop.induct)
  case (1 recv h)
  show ?case
  proof (cases "attempts h < 10 \<and> (\<not> handshake_sent h \<or> \<not> handshake_received h)")
    case True
    note unfold = handshake_loop_continue [OF True, of recv]
    have grows: "attempts h + 1 \<le> attempts (handshake_loop recv (handshake_step recv h))"
      using True handshake_loop_bounds [of "handshake_step recv h" recv]
      by (simp add: step_attempts)
    have split: "(\<exists>j. attempts h \<le> j \<and> j < n \<and> P j) \<longleftrightarrow>
        P (attempts h) \<or> (\<exists>j. attempts h + 1 \<le> j \<and> j < n \<and> P j)"
      if "attempts h + 1 \<le> n" for n and P :: "nat \<Rightarrow> bool"
    proof
      assume "\<exists>j. attempts h \<le> j \<and> j < n \<and> P j"
      then obtain j where j: "attempts h \<le> j" "j < n" "P j" by blast
      show "P (attempts h) \<or> (\<exists>j. attempts h + 1 \<le> j \<and> j < n \<and> P j)"
      proof (cases "j = attempts h")
        case True
        with j show ?thesis by simp
      next
        case False
        with j have "attempts h + 1 \<le> j" by simp
        with j show ?thesis by blast
      qed
    next
      assume "P (attempts h) \<or> (\<exists>j. attempts h + 1 \<le> j \<and> j < n \<and> P j)"
      then show "\<exists>j. attempts h \<le> j \<and> j < n \<and> P j"
      proof
        assume "P (attempts h)"
        with that show ?thesis by (intro exI [of _ "attempts h"]) simp
      next
        assume "\<exists>j. attempts h + 1 \<le> j \<and> j < n \<and> P j"
        then obtain j where "attempts h + 1 \<le> j" "j < n" "P j" by blast
        then show ?thesis by (intro exI [of _ j]) simp
      qed
    qed
    from "1.IH" [OF True] show ?thesis
      unfolding unfold
      by (simp only: step_sent step_received step_attempts split [OF grows] disj_assoc)
  next
    case False
    then have "handshake_loop recv h = h"
      by (rule handshake_loop_stop)
    then show ?thesis by auto
  qed
qed

lemma handshake_loop_log:
  "(handshake_received h \<longrightarrow> MSG_READY @ '':'' @ NODE_ID \<in> set (to_peer h)) \<Longrightarrow>
   (handshake_sent h \<longrightarrow> MSG_HANDSHAKE @ '':'' @ NODE_ID \<in> set (to_peer h)) \<Longrightarrow>
   (handshake_received (handshake_loop recv h) \<longrightarrow>
      MSG_READY @ '':'' @ NODE_ID \<in> set (to_peer (handshake_loop recv h)))
   \<and> (handshake_sent (handshake_loop recv h) \<longrightarrow>
      MSG_HANDSHAKE @ '':'' @ NODE_ID \<in> set (to_peer (handshake_loop recv h)))"
proof (induction recv h rule: handshake_loop.induct)
  case (1 recv h)
  show ?case
  proof (cases "attempts h < 10 \<and> (\<not> handshake_sent h \<or> \<not> handshake_received h)")
    case True
    note unfold = handshake_loop_continue [OF True, of recv]
    show ?thesis
      unfolding unfold
      by (rule "1.IH" [OF True step_replied [OF "1.prems"(1)] step_requested [OF "1.prems"(2)]])
  next
    case False
    then have "handshake_loop recv h = h"
      by (rule handshake_loop_stop)
    with "1.prems" show ?thesis by simp
  qed
qed

lemma to_string_45001: "to_string 45001 = ''45001''"
  by (simp add: to_string_def digits.simps char_of_def bit_Suc_0_iff)

lemma to_string_50003: "to_string 50003 = ''50003''"
  by (simp add: to_string_def digits.simps char_of_def bit_Suc_0_iff)

lemma to_string_0: "to_string 0 = ''0''"
  by (simp add: to_string_def digits.simps char_of_def bit_Suc_0_iff)

lemma to_string_1: "to_string 1 = ''1''"
  by (simp add: to_string_def digits.simps char_of_def bit_Suc_0_iff)

lemma peer_key_sample: "peer_key ''192.168.1.20'' 45001 = ''192.168.1.20:45001''"
  by (simp add: peer_key_def to_string_45001)

text \<open>
  Claim C3, as the code has it. \<^verbatim>\<open>performHandshake\<close> of the chat node returns true exactly
  when, within its ten passes, a \<^verbatim>\<open>READY\<close> has arrived (the peer's answer to this node's
  request) and a \<^verbatim>\<open>HANDSHAKE\<close> has arrived (the peer's own request, which this node has
  answered with \<^verbatim>\<open>READY\<close>). With only one of the two, all ten passes are used and the
  result is false.
\<close>

theorem handshake_needs_both_directions:
  "(fst (performHandshake recv) \<longleftrightarrow>
      (\<exists>j<10. brings_ready recv j) \<and> (\<exists>i<10. brings_request recv i))
   \<and> (if fst (performHandshake recv)
       then MSG_HANDSHAKE @ '':'' @ NODE_ID \<in> set (to_peer (snd (performHandshake recv)))
          \<and> MSG_READY @ '':'' @ NODE_ID \<in> set (to_peer (snd (performHandshake recv)))
       else attempts (snd (performHandshake recv)) = 10)"
proof -
  let ?init = "\<lparr>attempts = 0, handshake_sent = False, handshake_received = False, to_peer = []\<rparr>"
  let ?final = "handshake_loop recv ?init"
  have res: "performHandshake recv = (handshake_sent ?final \<and> handshake_received ?final, ?final)"
    by (simp add: performHandshake_def Let_def)
  have bounds: "attempts ?final \<le> 10"
      "attempts ?final = 10 \<or> handshake_sent ?final \<and> handshake_received ?final"
    using handshake_loop_bounds [of ?init recv] by simp_all
  have sent: "handshake_sent ?final \<longleftrightarrow> (\<exists>j. j < attempts ?final \<and> brings_ready recv j)"
    and received: "handshake_received ?final \<longleftrightarrow> (\<exists>i. i < attempts ?final \<and> brings_request recv i)"
    using handshake_loop_flags [of recv ?init] by simp_all
  have log: "handshake_received ?final \<longrightarrow> MSG_READY @ '':'' @ NODE_ID \<in> set (to_peer ?final)"
      "handshake_sent ?final \<longrightarrow> MSG_HANDSHAKE @ '':'' @ NODE_ID \<in> set (to_peer ?final)"
    using handshake_loop_log [of ?init recv] by simp_all
  have iff: "handshake_sent ?final \<and> handshake_received ?final \<longleftrightarrow>
      (\<exists>j<10. brings_ready recv j) \<and> (\<exists>i<10. brings_request recv i)"
  proof
    assume "handshake_sent ?final \<and> handshake_received ?final"
    with sent received bounds(1) show "(\<exists>j<10. brings_ready recv j) \<and> (\<exists>i<10. brings_request recv i)"
      by (meson less_le_trans)
  next
    assume both: "(\<exists>j<10. brings_ready recv j) \<and> (\<exists>i<10. brings_request recv i)"
    show "handshake_sent ?final \<and> handshake_received ?final"
    proof (rule ccontr)
      assume "\<not> (handshake_sent ?final \<and> handshake_received ?final)"
      with bounds(2) have "attempts ?final = 10" by blast
      with sent received both show False
        using \<open>\<not> (handshake_sent ?final \<and> handshake_received ?final)\<close> by simp
    qed
  qed
  show ?thesis
    unfolding res using iff bounds(2) log by auto
qed

text \<open>
  A peer that only sends requests: ten passes, then failure. A peer that answers and
  asks: success.
\<close>

theorem handshake_needs_both_directions_witness:
  "fst (performHandshake requests_only) = False
   \<and> attempts (snd (performHandshake requests_only)) = 10
   \<and> fst (performHandshake both_ways) = True"
proof -
  have never: "brings_ready requests_only j = False" for j
    by (simp add: brings_ready_def requests_only_def starts_with_def MSG_HANDSHAKE_def)
  have ready: "brings_ready both_ways 1"
    by (simp add: brings_ready_def both_ways_def starts_with_def MSG_HANDSHAKE_def MSG_READY_def)
  have request: "brings_request both_ways 3"
    by (simp add: brings_request_def both_ways_def starts_with_def MSG_HANDSHAKE_def)
  have both: "(\<exists>j<10. brings_ready both_ways j) \<and> (\<exists>i<10. brings_request both_ways i)"
    using ready request by (intro conjI exI [of _ 1] exI [of _ 3]) simp_all
  have one: "fst (performHandshake requests_only) = False
      \<and> attempts (snd (performHandshake requests_only)) = 10"
    using handshake_needs_both_directions [of requests_only] by (simp add: never)
  have two: "fst (performHandshake both_ways) = True"
    using handshake_needs_both_directions [of both_ways] both by simp
  show ?thesis
    using one two by simp
qed

text \<open>
  The network module is different. Its \<^verbatim>\<open>handle_handshake_ack\<close> marks the sender connected
  on the acknowledgement alone: here the manager knows one peer, not connected, has
  received and sent nothing, and one \<^verbatim>\<open>HANDSHAKE_ACK\<close> from that peer connects it.
\<close>

theorem one_sided_ack_connects_counterexample:
  "peers manager_with_peer = [(''192.168.1.20:45001'', known_peer)]
   \<and> is_connected known_peer = False
   \<and> incoming_messages manager_with_peer = [] \<and> outgoing_messages manager_with_peer = []
   \<and> msg_type ack_from_peer = HANDSHAKE_ACK
   \<and> peers (handle_incoming_message 1 2 ack_from_peer manager_with_peer) =
       [(''192.168.1.20:45001'', known_peer\<lparr>last_heartbeat := 2, is_connected := True\<rparr>)]"
  by (simp add: manager_with_peer_def idle_manager_def known_peer_def ack_from_peer_def
      handle_incoming_message_def refresh_sender_def dispatch_message_def
      handle_handshake_ack_def mark_peer_connected_def update_heartbeat_def peer_key_sample
      HANDSHAKE_START_def HANDSHAKE_ACK_def)

section \<open>Discovery\<close>

text \<open>
  Claim C6, as the code has it. The discovery thread of the chat node acts on a received
  text only if its second field is the expected peer's id. Any other sender id, the
  node's own among them, leaves the state as it was: no peer is recorded and no
  acknowledgement is sent.
\<close>

theorem foreign_sender_ignored:
  assumes "sender_id_of received \<noteq> PEER_ID"
  shows "discovery_receive received sender st = Inr st"
proof -
  obtain kind r1 where first: "getline CHR '':'' received = (kind, r1)" by fastforce
  obtain sender_id r2 where second: "getline CHR '':'' r1 = (sender_id, r2)" by fastforce
  obtain sender_port_str r3 where third: "getline CHR '':'' r2 = (sender_port_str, r3)"
    by fastforce
  from assms have "sender_id \<noteq> PEER_ID"
    by (simp add: sender_id_of_def first second)
  then show ?thesis
    by (simp add: discovery_receive_def first second third)
qed

text \<open>
  The node's own broadcast \<^verbatim>\<open>DISCOVER:NODE2:50003\<close>, looped back.
\<close>

theorem foreign_sender_ignored_witness:
  "sender_id_of discover_msg = NODE_ID
   \<and> sender_id_of discover_msg \<noteq> PEER_ID
   \<and> discovery_receive discover_msg ''10.0.0.2'' silent_discovery = Inr silent_discovery"
proof -
  have own: "sender_id_of discover_msg = NODE_ID"
    by (simp add: sender_id_of_def discover_msg_def getline_def MSG_DISCOVER_def NODE_ID_def)
  then have other: "sender_id_of discover_msg \<noteq> PEER_ID"
    by (simp add: NODE_ID_def PEER_ID_def)
  show ?thesis
    using own other foreign_sender_ignored [OF other, of "''10.0.0.2''" silent_discovery]
    by simp
qed

lemma discovery_broadcast_idle: "discovery_broadcast idle_manager = ''0|AIMLAB_VR:45001''"
  by (simp add: discovery_broadcast_def Message_serialize_def idle_manager_def DISCOVER_def
      APP_IDENTIFIER_def to_string_45001 to_string_0)

lemma stoi_45001: "stoi ''45001'' = Inr 45001"
  by (simp add: stoi_def isspace_def isdigit_def decimal_def Let_def)

lemma stoi_0: "stoi ''0'' = Inr 0"
  by (simp add: stoi_def isspace_def isdigit_def decimal_def Let_def)

text \<open>
  The network module has no role id and no filter. Its own broadcast, received back
  from its own address, creates a peer entry, is acknowledged, and starts a handshake.
\<close>

theorem own_broadcast_registered_counterexample:
  "peers idle_manager = []
   \<and> handle_discovery_message 0 (discovery_broadcast idle_manager) ''192.168.1.10'' idle_manager =
       Inr (idle_manager
         \<lparr>peers := [(''192.168.1.10:45001'',
             \<lparr>ip_address = ''192.168.1.10'', port = 45001, last_heartbeat = 0,
              is_connected = False\<rparr>)],
          outgoing_messages := [\<lparr>msg_type = HANDSHAKE_START, payload = ''1.0'',
             sender_ip = ''192.168.1.10'', sender_port = 45001\<rparr>],
          discovery_sent := [(''1|AIMLAB_VR:45001'', ''192.168.1.10'', 45000)]\<rparr>)"
proof -
  have msg: "Message_deserialize ''0|AIMLAB_VR:45001'' =
      Inr \<lparr>msg_type = 0, payload = ''AIMLAB_VR:45001'', sender_ip = [], sender_port = 0\<rparr>"
    by (simp add: Message_deserialize_def stoi_0)
  have port: "rev (takeWhile (\<lambda>c. c \<noteq> CHR '':'') (rev ''AIMLAB_VR:45001'')) = ''45001''"
    by simp
  have key: "peer_key ''192.168.1.10'' 45001 = ''192.168.1.10:45001''"
    by (simp add: peer_key_def to_string_45001)
  have ack: "Message_serialize \<lparr>msg_type = ACKNOWLEDGE, payload = APP_IDENTIFIER @ '':'' @ to_string 45001,
      sender_ip = [], sender_port = 0\<rparr> = ''1|AIMLAB_VR:45001''"
    by (simp add: Message_serialize_def ACKNOWLEDGE_def APP_IDENTIFIER_def to_string_45001
        to_string_1)
  show ?thesis
    by (simp add: handle_discovery_message_def discovery_broadcast_idle msg starts_with_def
        APP_IDENTIFIER_def port stoi_45001 key Let_def)
      (simp add: idle_manager_def peers_insert_def DISCOVER_def initiate_handshake_def
        DISCOVERY_PORT_def PROTOCOL_VERSION_def HANDSHAKE_START_def Message_serialize_def
        ACKNOWLEDGE_def to_string_45001 to_string_1)
qed

section \<open>Liveness\<close>

lemma sdiv_nonneg: "0 \<le> a \<Longrightarrow> 0 < b \<Longrightarrow> a sdiv b = a div (b :: int)"
  by (cases "a = 0") (simp_all add: signed_divide_int_def)

lemma heartbeat_pass_lookup:
  "map_of (fst (heartbeat_pass clock al)) k =
     map_option (\<lambda>p. if is_connected p \<and> is_timeout (clock k) p
                      then p\<lparr>is_connected := False\<rparr> else p) (map_of al k)"
proof (induction al)
  case Nil
  then show ?case by simp
next
  case (Cons entry al)
  obtain peer_id peer_info where entry: "entry = (peer_id, peer_info)" by (cases entry)
  obtain rest' queued where pass: "heartbeat_pass clock al = (rest', queued)" by fastforce
  with Cons.IH have ih: "map_of rest' k =
     map_option (\<lambda>p. if is_connected p \<and> is_timeout (clock k) p
                      then p\<lparr>is_connected := False\<rparr> else p) (map_of al k)"
    by simp
  show ?case
    by (simp add: entry pass ih)
qed

lemma refresh_sender_lookup:
  "map_of (peers nm) (peer_key (sender_ip msg) (sender_port msg)) = Some p \<Longrightarrow>
   map_of (peers (refresh_sender now msg nm)) (peer_key (sender_ip msg) (sender_port msg)) =
     Some (p\<lparr>last_heartbeat := now\<rparr>)"
  by (simp add: refresh_sender_def map_of_map_entry update_heartbeat_def)

lemma mark_peer_connected_lookup:
  "map_of (peers nm) (peer_key ip pt) = Some p \<Longrightarrow>
   map_of (peers (mark_peer_connected later ip pt nm)) (peer_key ip pt) =
     Some (p\<lparr>is_connected := True, last_heartbeat := later\<rparr>)"
  by (simp add: mark_peer_connected_def map_of_map_entry update_heartbeat_def)

lemma dispatch_message_lookup:
  assumes "map_of (peers nm) (peer_key (sender_ip msg) (sender_port msg)) = Some p"
  shows "map_of (peers (dispatch_message later msg nm)) (peer_key (sender_ip msg) (sender_port msg)) =
     (if msg_type msg = HANDSHAKE_ACK \<or> msg_type msg = HANDSHAKE_COMPLETE
      then Some (p\<lparr>is_connected := True, last_heartbeat := later\<rparr>)
      else if msg_type msg = DISCONNECT then None
      else Some p)"
proof -
  have ack: "map_of (peers (handle_handshake_ack later msg nm))
      (peer_key (sender_ip msg) (sender_port msg)) =
      Some (p\<lparr>is_connected := True, last_heartbeat := later\<rparr>)"
    unfolding handle_handshake_ack_def
    by (rule mark_peer_connected_lookup) (simp add: assms)
  have complete: "map_of (peers (handle_handshake_complete later msg nm))
      (peer_key (sender_ip msg) (sender_port msg)) =
      Some (p\<lparr>is_connected := True, last_heartbeat := later\<rparr>)"
    unfolding handle_handshake_complete_def
    by (rule mark_peer_connected_lookup) (simp add: assms)
  have gone: "map_of (peers (handle_disconnect msg nm))
      (peer_key (sender_ip msg) (sender_port msg)) = None"
    by (simp add: handle_disconnect_def delete_conv)
  have start: "peers (handle_handshake_start msg nm) = peers nm"
    by (simp add: handle_handshake_start_def)
  show ?thesis
    using assms
    by (simp add: dispatch_message_def ack complete gone start Let_def
        HANDSHAKE_START_def HANDSHAKE_ACK_def HANDSHAKE_COMPLETE_def DATA_def HEARTBEAT_def
        DISCONNECT_def)
qed

lemma map_of_peers_insert:
  "map_of (peers_insert k' info al) k = (if k = k' then Some info else map_of al k)"
  unfolding peers_insert_def by (induction al) auto

lemma handle_discovery_message_known:
  assumes "map_of (peers nm) k = Some p"
  shows "case handle_discovery_message now data from_ip nm of
           Inl e \<Rightarrow> True
         | Inr nm' \<Rightarrow> map_of (peers nm') k = Some p"
  using assms
  by (auto simp add: handle_discovery_message_def Let_def initiate_handshake_def
      map_of_peers_insert split: sum.splits)

text \<open>
  Claim C5, as the code has it. For a peer with an entry in the map: the sweep clears
  \<^verbatim>\<open>is_connected\<close> exactly when the peer is connected and the time since its last
  heartbeat, cut down to whole milliseconds, is more than 15000; nothing else in the entry
  changes, and the entry stays in the map. Every message handled on the data socket from
  the peer's address sets its last-heartbeat time to the clock reading; after the whole
  handler the entry carries that reading or the later one of \<^verbatim>\<open>mark_peer_connected\<close>,
  unless the message was a \<^verbatim>\<open>DISCONNECT\<close>, which erases the entry. A peer refreshed at
  most 15000 ms before the sweep looks at it is left as it is. A datagram handled on the
  discovery socket, whatever it holds and wherever it comes from, leaves the entry of a
  known peer as it was, its last-heartbeat time included.
\<close>

theorem liveness_sweep_and_refresh:
  assumes "map_of (peers nm) k = Some p"
  shows "map_of (peers (heartbeat_sweep clock nm)) k =
           Some (if is_connected p \<and> 15000 < (clock k - last_heartbeat p) sdiv 1000000
                 then p\<lparr>is_connected := False\<rparr> else p)
       \<and> (if k = peer_key (sender_ip msg) (sender_port msg)
          then map_of (peers (refresh_sender now msg nm)) k = Some (p\<lparr>last_heartbeat := now\<rparr>)
             \<and> (case map_of (peers (handle_incoming_message now later msg nm)) k of
                  None \<Rightarrow> msg_type msg = DISCONNECT
                | Some p' \<Rightarrow> last_heartbeat p' = now \<or> last_heartbeat p' = later)
             \<and> (if 0 \<le> clock k - now \<and> clock k - now \<le> 15000 * 1000000
                then map_of (peers (heartbeat_sweep clock (refresh_sender now msg nm))) k =
                       Some (p\<lparr>last_heartbeat := now\<rparr>)
                else True)
          else True)
       \<and> (case handle_discovery_message now data from_ip nm of
            Inl e \<Rightarrow> True
          | Inr nm' \<Rightarrow> map_of (peers nm') k = Some p)"
proof -
  have sweep: "map_of (peers (heartbeat_sweep clock m)) k =
      map_option (\<lambda>p. if is_connected p \<and> is_timeout (clock k) p
                       then p\<lparr>is_connected := False\<rparr> else p) (map_of (peers m) k)" for m
    using heartbeat_pass_lookup [of clock "peers m" k]
    by (simp add: heartbeat_sweep_def case_prod_beta)
  have first: "map_of (peers (heartbeat_sweep clock nm)) k =
           Some (if is_connected p \<and> 15000 < (clock k - last_heartbeat p) sdiv 1000000
                 then p\<lparr>is_connected := False\<rparr> else p)"
    by (simp add: sweep assms is_timeout_def CONNECTION_TIMEOUT_MS_def)
  have second: "map_of (peers (refresh_sender now msg nm)) k = Some (p\<lparr>last_heartbeat := now\<rparr>)
      \<and> (case map_of (peers (handle_incoming_message now later msg nm)) k of
            None \<Rightarrow> msg_type msg = DISCONNECT
          | Some p' \<Rightarrow> last_heartbeat p' = now \<or> last_heartbeat p' = later)
      \<and> (if 0 \<le> clock k - now \<and> clock k - now \<le> 15000 * 1000000
          then map_of (peers (heartbeat_sweep clock (refresh_sender now msg nm))) k =
                 Some (p\<lparr>last_heartbeat := now\<rparr>)
          else True)"
    if k: "k = peer_key (sender_ip msg) (sender_port msg)"
  proof -
    have known: "map_of (peers nm) (peer_key (sender_ip msg) (sender_port msg)) = Some p"
      using assms k by simp
    note fresh = refresh_sender_lookup [OF known, of now]
    note after = dispatch_message_lookup [OF fresh, of later]
    have window: "\<not> is_timeout (clock k) (p\<lparr>last_heartbeat := now\<rparr>)"
      if "0 \<le> clock k - now" and "clock k - now \<le> 15000 * 1000000"
      using that by (simp add: is_timeout_def CONNECTION_TIMEOUT_MS_def sdiv_nonneg)
    show ?thesis
      using fresh after window
      by (simp add: k [symmetric] handle_incoming_message_def sweep)
  qed
  note third = handle_discovery_message_known [OF assms, of now data from_ip]
  show ?thesis
  proof (cases "k = peer_key (sender_ip msg) (sender_port msg)")
    case True
    from first second [OF True] third show ?thesis
      unfolding if_P [OF True] by (intro conjI) simp_all
  next
    case False
    from first third show ?thesis
      unfolding if_not_P [OF False] by simp
  qed
qed

lemma discovery_from_stale_peer:
  "handle_discovery_message 10000000000 ''0|AIMLAB_VR:45001'' ''192.168.1.20''
     manager_with_stale_peer = Inr manager_with_stale_peer"
proof -
  have msg: "Message_deserialize ''0|AIMLAB_VR:45001'' =
      Inr \<lparr>msg_type = 0, payload = ''AIMLAB_VR:45001'', sender_ip = [], sender_port = 0\<rparr>"
    by (simp add: Message_deserialize_def stoi_0)
  have port: "rev (takeWhile (\<lambda>c. c \<noteq> CHR '':'') (rev ''AIMLAB_VR:45001'')) = ''45001''"
    by simp
  show ?thesis
    by (simp add: handle_discovery_message_def msg starts_with_def APP_IDENTIFIER_def port
        stoi_45001 peer_key_sample Let_def)
      (simp add: manager_with_stale_peer_def idle_manager_def)
qed

text \<open>
  A connected peer last heard at 0: a sweep at 20 s disconnects it; refreshed by a
  heartbeat on the data socket at 10 s, the same sweep leaves it connected; its
  \<^verbatim>\<open>DISCOVER\<close> datagram on the discovery socket at 10 s leaves its entry as it was.
\<close>

theorem liveness_sweep_and_refresh_witness:
  "map_of (peers manager_with_stale_peer) ''192.168.1.20:45001'' = Some stale_peer
   \<and> is_connected stale_peer \<and> last_heartbeat stale_peer = 0
   \<and> map_of (peers (heartbeat_sweep twenty_seconds manager_with_stale_peer))
        ''192.168.1.20:45001'' = Some (stale_peer\<lparr>is_connected := False\<rparr>)
   \<and> map_of (peers (refresh_sender 10000000000 heartbeat_from_peer manager_with_stale_peer))
        ''192.168.1.20:45001'' = Some (stale_peer\<lparr>last_heartbeat := 10000000000\<rparr>)
   \<and> map_of (peers (heartbeat_sweep twenty_seconds
          (refresh_sender 10000000000 heartbeat_from_peer manager_with_stale_peer)))
        ''192.168.1.20:45001'' = Some (stale_peer\<lparr>last_heartbeat := 10000000000\<rparr>)
   \<and> (case handle_discovery_message 10000000000 ''0|AIMLAB_VR:45001'' ''192.168.1.20''
             manager_with_stale_peer of
         Inl e \<Rightarrow> False
       | Inr nm' \<Rightarrow> map_of (peers nm') ''192.168.1.20:45001'' = Some stale_peer)"
proof -
  have known: "map_of (peers manager_with_stale_peer) ''192.168.1.20:45001'' = Some stale_peer"
    by (simp add: manager_with_stale_peer_def idle_manager_def)
  have key: "''192.168.1.20:45001'' =
      peer_key (sender_ip heartbeat_from_peer) (sender_port heartbeat_from_peer)"
    by (simp add: heartbeat_from_peer_def peer_key_sample)
  have peer: "is_connected stale_peer" "last_heartbeat stale_peer = 0"
    by (simp_all add: stale_peer_def known_peer_def)
  have lag: "(20000000000 :: int) sdiv 1000000 = 20000"
    by (simp add: sdiv_nonneg)
  show ?thesis
    using known peer
      liveness_sweep_and_refresh [OF known, of twenty_seconds heartbeat_from_peer 10000000000 0
        "''0|AIMLAB_VR:45001''" "''192.168.1.20''"]
    by (simp add: key [symmetric] twenty_seconds_def lag discovery_from_stale_peer)
qed

text \<open>
  A connected peer last heard at 0 and a sweep at 15000.5 ms: the lag is more than
  15000 ms, its whole milliseconds are not, and the peer stays connected. And the same
  peer heard on the discovery socket at 10 s: its \<^verbatim>\<open>DISCOVER\<close> datagram changes nothing, its
  last-heartbeat time is still 0, and the sweep at 20 s disconnects it.
\<close>

theorem liveness_counterexample:
  "peers manager_with_stale_peer = [(''192.168.1.20:45001'', stale_peer)]
   \<and> is_connected stale_peer
   \<and> half_past ''192.168.1.20:45001'' - last_heartbeat stale_peer = 15000500000
   \<and> peers (heartbeat_sweep half_past manager_with_stale_peer) =
       [(''192.168.1.20:45001'', stale_peer)]
   \<and> handle_discovery_message 10000000000 ''0|AIMLAB_VR:45001'' ''192.168.1.20''
        manager_with_stale_peer = Inr manager_with_stale_peer
   \<and> last_heartbeat stale_peer = 0
   \<and> peers (heartbeat_sweep twenty_seconds manager_with_stale_peer) =
       [(''192.168.1.20:45001'', stale_peer\<lparr>is_connected := False\<rparr>)]"
proof -
  have lag: "(15000500000 :: int) sdiv 1000000 = 15000" "(20000000000 :: int) sdiv 1000000 = 20000"
    by (simp_all add: sdiv_nonneg)
  have sweeps: "peers manager_with_stale_peer = [(''192.168.1.20:45001'', stale_peer)]"
      "is_connected stale_peer"
      "half_past ''192.168.1.20:45001'' - last_heartbeat stale_peer = 15000500000"
      "peers (heartbeat_sweep half_past manager_with_stale_peer) =
         [(''192.168.1.20:45001'', stale_peer)]"
      "last_heartbeat stale_peer = 0"
      "peers (heartbeat_sweep twenty_seconds manager_with_stale_peer) =
         [(''192.168.1.20:45001'', stale_peer\<lparr>is_connected := False\<rparr>)]"
    by (simp_all add: manager_with_stale_peer_def idle_manager_def stale_peer_def known_peer_def
        half_past_def twenty_seconds_def heartbeat_sweep_def is_timeout_def
        CONNECTION_TIMEOUT_MS_def lag)
  show ?thesis
    using sweeps discovery_from_stale_peer by simp
qed

section \<open>Command channel\<close>

lemma closeDataFile_closed: "\<not> file_open (closeDataFile r)"
  by (simp add: closeDataFile_def)

lemma closeDataFile_idle: "\<not> file_open r \<Longrightarrow> closeDataFile r = r"
  by (simp add: closeDataFile_def)

lemma closeDataFile_running: "running (closeDataFile r) = running r"
  by (simp add: closeDataFile_def)

text \<open>
  The handler. Every command gets a reply that begins with \<^verbatim>\<open>STATUS:\<close>. \<^verbatim>\<open>OPEN_FILE\<close>,
  \<^verbatim>\<open>CLOSE_FILE\<close>, \<^verbatim>\<open>GET_STATUS\<close> and \<^verbatim>\<open>SHUTDOWN\<close> are answered by their handlers:
  the file is opened and the reply names it or reports the failure; the file is closed;
  the status line is built; the file is closed and \<^verbatim>\<open>running\<close> is cleared. Any other
  command word is answered \<^verbatim>\<open>STATUS:UNKNOWN_COMMAND\<close> and changes nothing.
\<close>

lemma processCommand_replies:
  "starts_with ''STATUS:'' (fst (processCommand command env r))
   \<and> (if cmd_type_of command = CMD_OPEN_FILE then
         processCommand command env r =
           (if fst (openDataFile (fst (getline CHR 0x0A (snd (getline CHR '':'' command)))) env r)
            then ''STATUS:FILE_OPENED:'' @
              current_filename
                (snd (openDataFile (fst (getline CHR 0x0A (snd (getline CHR '':'' command)))) env r))
            else ''STATUS:FILE_OPEN_FAILED'',
            snd (openDataFile (fst (getline CHR 0x0A (snd (getline CHR '':'' command)))) env r))
       else if cmd_type_of command = CMD_CLOSE_FILE then
         processCommand command env r = (''STATUS:FILE_CLOSED'', closeDataFile r)
       else if cmd_type_of command = CMD_STATUS then
         processCommand command env r = (status_report r, r)
       else if cmd_type_of command = CMD_SHUTDOWN then
         processCommand command env r =
           (''STATUS:SHUTTING_DOWN'', (closeDataFile r)\<lparr>running := False\<rparr>)
       else processCommand command env r = (''STATUS:UNKNOWN_COMMAND'', r))"
proof -
  obtain cmd_type rest where split: "getline CHR '':'' command = (cmd_type, rest)"
    by fastforce
  have shut: "(if file_open r then closeDataFile r else r) = closeDataFile r"
    by (simp add: closeDataFile_idle)
  have names: "CMD_OPEN_FILE \<noteq> CMD_CLOSE_FILE" "CMD_OPEN_FILE \<noteq> CMD_STATUS"
      "CMD_OPEN_FILE \<noteq> CMD_SHUTDOWN" "CMD_CLOSE_FILE \<noteq> CMD_STATUS"
      "CMD_CLOSE_FILE \<noteq> CMD_SHUTDOWN" "CMD_STATUS \<noteq> CMD_SHUTDOWN"
    by (simp_all add: CMD_OPEN_FILE_def CMD_CLOSE_FILE_def CMD_STATUS_def CMD_SHUTDOWN_def)
  have dispatch: "processCommand command env r =
      (if cmd_type = CMD_OPEN_FILE then
         (if fst (openDataFile (fst (getline CHR 0x0A rest)) env r)
          then ''STATUS:FILE_OPENED:'' @
            current_filename (snd (openDataFile (fst (getline CHR 0x0A rest)) env r))
          else ''STATUS:FILE_OPEN_FAILED'',
          snd (openDataFile (fst (getline CHR 0x0A rest)) env r))
       else if cmd_type = CMD_CLOSE_FILE then (''STATUS:FILE_CLOSED'', closeDataFile r)
       else if cmd_type = CMD_STATUS then (status_report r, r)
       else if cmd_type = CMD_SHUTDOWN then
         (''STATUS:SHUTTING_DOWN'', (closeDataFile r)\<lparr>running := False\<rparr>)
       else (''STATUS:UNKNOWN_COMMAND'', r))"
    by (simp add: processCommand_def split shut MSG_STATUS_def case_prod_beta)
  have report: "starts_with ''STATUS:'' (status_report r)"
    by (simp add: starts_with_def status_report_def MSG_STATUS_def)
  have reply: "starts_with ''STATUS:'' (fst (processCommand command env r))"
    unfolding dispatch by (simp add: report) (simp add: starts_with_def)
  show ?thesis
    using reply dispatch by (simp add: cmd_type_of_def split)
qed

text \<open>
  An unknown command word, and \<^verbatim>\<open>SHUTDOWN\<close>, sent to an idle receiver.
\<close>

lemma processCommand_replies_sample:
  "processCommand ''RESET:now'' noon idle_receiver = (''STATUS:UNKNOWN_COMMAND'', idle_receiver)
   \<and> processCommand ''SHUTDOWN'' noon idle_receiver =
       (''STATUS:SHUTTING_DOWN'', idle_receiver\<lparr>running := False\<rparr>)"
proof -
  have reset: "cmd_type_of ''RESET:now'' = ''RESET''"
    by (simp add: cmd_type_of_def getline_def)
  have shutdown: "cmd_type_of ''SHUTDOWN'' = ''SHUTDOWN''"
    by (simp add: cmd_type_of_def getline_def)
  have idle: "closeDataFile idle_receiver = idle_receiver"
    by (simp add: closeDataFile_def idle_receiver_def)
  have one: "processCommand ''RESET:now'' noon idle_receiver =
      (''STATUS:UNKNOWN_COMMAND'', idle_receiver)"
    using processCommand_replies [of "''RESET:now''" noon idle_receiver]
    by (simp add: reset CMD_OPEN_FILE_def CMD_CLOSE_FILE_def CMD_STATUS_def CMD_SHUTDOWN_def)
  have two: "processCommand ''SHUTDOWN'' noon idle_receiver =
       (''STATUS:SHUTTING_DOWN'', idle_receiver\<lparr>running := False\<rparr>)"
    using processCommand_replies [of "''SHUTDOWN''" noon idle_receiver]
    by (simp add: shutdown idle CMD_OPEN_FILE_def CMD_CLOSE_FILE_def CMD_STATUS_def
        CMD_SHUTDOWN_def)
  show ?thesis
    using one two by simp
qed

text \<open>
  The receive loop takes a text for a command when its first field is \<^verbatim>\<open>CMD\<close>: the text is
  \<^verbatim>\<open>CMD\<close> alone, or it begins with \<^verbatim>\<open>CMD:\<close>.
\<close>

lemma getline_no_delim:
  assumes "delim \<notin> set s"
  shows "getline delim s = (s, [])"
proof -
  have whole: "takeWhile (\<lambda>c. c \<noteq> delim) s = s" "dropWhile (\<lambda>c. c \<noteq> delim) s = []"
    using assms by (auto simp add: takeWhile_eq_all_conv dropWhile_eq_Nil_conv)
  show ?thesis unfolding getline_def whole by simp
qed

lemma getline_field:
  "fst (getline delim s) = w \<longleftrightarrow> delim \<notin> set w \<and> (s = w \<or> take (Suc (length w)) s = w @ [delim])"
proof
  assume field: "fst (getline delim s) = w"
  then have w: "w = takeWhile (\<lambda>c. c \<noteq> delim) s" by (simp add: getline_def)
  have clean: "delim \<notin> set w"
    unfolding w by (auto dest: set_takeWhileD)
  have split: "s = w @ dropWhile (\<lambda>c. c \<noteq> delim) s"
    unfolding w by simp
  show "delim \<notin> set w \<and> (s = w \<or> take (Suc (length w)) s = w @ [delim])"
  proof (cases "dropWhile (\<lambda>c. c \<noteq> delim) s")
    case Nil
    with split clean show ?thesis by simp
  next
    case (Cons c cs)
    then have "c = delim"
      using hd_dropWhile [of "\<lambda>c. c \<noteq> delim" s] by auto
    with Cons split have "s = w @ delim # cs" by simp
    then have "take (Suc (length w)) s = w @ [delim]"
      by (metis append.assoc append_Cons append_Nil append_eq_conv_conj length_append_singleton)
    with clean show ?thesis by simp
  qed
next
  assume right: "delim \<notin> set w \<and> (s = w \<or> take (Suc (length w)) s = w @ [delim])"
  then have clean: "delim \<notin> set w" by simp
  from right consider "s = w" | "take (Suc (length w)) s = w @ [delim]" by blast
  then show "fst (getline delim s) = w"
  proof cases
    case 1
    with clean show ?thesis by (simp add: getline_no_delim)
  next
    case 2
    then have "s = (w @ [delim]) @ drop (Suc (length w)) s"
      by (metis append_take_drop_id)
    then obtain rest where s: "s = w @ delim # rest" by simp
    have "takeWhile (\<lambda>c. c \<noteq> delim) (w @ delim # rest) = w"
      using clean by (subst takeWhile_append2) auto
    then show ?thesis by (simp add: getline_def s)
  qed
qed

lemma command_envelope_cases:
  "fst (getline CHR '':'' received) = MSG_COMMAND \<longleftrightarrow>
     received = ''CMD'' \<or> starts_with ''CMD:'' received"
  by (simp add: getline_field MSG_COMMAND_def starts_with_def eval_nat_numeral)

text \<open>
  A datagram whose text begins with \<^verbatim>\<open>CMD:\<close> reaches the handler, and the handler's reply is
  sent: an unknown command word is answered \<^verbatim>\<open>STATUS:UNKNOWN_COMMAND\<close> and changes nothing.
\<close>

lemma command_envelope_answered:
  assumes "received = takeWhile (\<lambda>c. c \<noteq> CHR 0x00) bytes"
    and "starts_with ''CMD:'' received"
  shows "dataReceive bytes ms env r =
           Inr (Some (fst (processCommand (drop 4 received) env r)),
                snd (processCommand (drop 4 received) env r))"
proof -
  from assms(2) have "length (take (length ''CMD:'') received) = length ''CMD:''"
    by (simp only: starts_with_def)
  then have long: "4 \<le> length received" by simp
  then have some: "bytes \<noteq> []" using assms(1) by auto
  have field: "fst (getline CHR '':'' received) = MSG_COMMAND"
    using assms(2) by (simp add: command_envelope_cases)
  show ?thesis
    using long some field
    by (simp add: dataReceive_def assms(1) [symmetric] Let_def MSG_COMMAND_def case_prod_beta
        eval_nat_numeral)
qed

lemma unknown_command_answered:
  assumes "received = takeWhile (\<lambda>c. c \<noteq> CHR 0x00) bytes"
    and "starts_with ''CMD:'' received"
    and "cmd_type_of (drop 4 received) \<notin> {CMD_OPEN_FILE, CMD_CLOSE_FILE, CMD_STATUS, CMD_SHUTDOWN}"
  shows "dataReceive bytes ms env r = Inr (Some ''STATUS:UNKNOWN_COMMAND'', r)"
  using processCommand_replies [of "drop 4 received" env r] assms(3)
  by (simp add: command_envelope_answered [OF assms(1,2)])

text \<open>
  Claim C9, at the datagram \<^verbatim>\<open>CMD\<close>: three characters, no separator and no command word,
  which is not one of \<^verbatim>\<open>OPEN_FILE\<close>, \<^verbatim>\<open>CLOSE_FILE\<close>, \<^verbatim>\<open>GET_STATUS\<close>, \<^verbatim>\<open>SHUTDOWN\<close>. The
  receive loop takes it for a command, \<^verbatim>\<open>received.substr(4)\<close> throws before the handler is
  called, and no reply is sent. The same command with the separator, \<^verbatim>\<open>CMD:\<close>, is answered
  \<^verbatim>\<open>STATUS:UNKNOWN_COMMAND\<close>.
\<close>

theorem bare_command_unanswered:
  "fst (getline CHR '':'' ''CMD'') = MSG_COMMAND
   \<and> cmd_type_of [] = []
   \<and> dataReceive ''CMD'' 0 noon idle_receiver = Inl out_of_range
   \<and> dataReceive ''CMD:'' 0 noon idle_receiver =
       Inr (Some ''STATUS:UNKNOWN_COMMAND'', idle_receiver)"
  by (simp add: dataReceive_def processCommand_def cmd_type_of_def getline_def MSG_COMMAND_def
      MSG_STATUS_def CMD_OPEN_FILE_def CMD_CLOSE_FILE_def CMD_STATUS_def CMD_SHUTDOWN_def
      Let_def)

end
